theory Spec2Isabelle
  imports Complex_Main
begin

section \<open>Circuit breaker of the API gateway\<close>

text \<open>
  \<^verbatim>\<open>api-gateway/server.js\<close> keeps one record per backend service in the map
  \<^verbatim>\<open>this.circuitBreakers\<close>:
  \<^verbatim>\<open>{ [serviceName]: { failures, isOpen, isHalfOpen, lastFailure } }\<close>.
  Time stamps are the milliseconds of \<^verbatim>\<open>Date.now()\<close>; the clock reading is an argument
  of every operation that reads it.
\<close>

record breaker =
  failures :: int
  isOpen :: bool
  isHalfOpen :: bool
  lastFailure :: int

type_synonym breakers = "string \<rightharpoonup> breaker"

text \<open>\<^verbatim>\<open>isCircuitOpen(serviceName)\<close>: the gate check, with its lazy demotion to half-open.\<close>

definition isCircuitOpen :: "breakers \<Rightarrow> string \<Rightarrow> int \<Rightarrow> bool \<times> breakers" where
  "isCircuitOpen cbs serviceName now =
     (case cbs serviceName of
        None \<Rightarrow> (False, cbs)
      | Some b \<Rightarrow>
          if isOpen b \<and> now - lastFailure b > 30000
          then (False, cbs(serviceName \<mapsto> b\<lparr>isOpen := False, isHalfOpen := True\<rparr>))
          else (isOpen b, cbs))"

text \<open>The record \<^verbatim>\<open>recordFailure\<close> starts from when the map has none.\<close>

definition freshBreaker :: breaker where
  "freshBreaker = \<lparr>failures = 0, isOpen = False, isHalfOpen = False, lastFailure = 0\<rparr>"

definition recordFailure :: "breakers \<Rightarrow> string \<Rightarrow> int \<Rightarrow> breakers" where
  "recordFailure cbs serviceName now =
     (let b = (case cbs serviceName of None \<Rightarrow> freshBreaker | Some b0 \<Rightarrow> b0);
          b1 = b\<lparr>failures := failures b + 1, lastFailure := now\<rparr>;
          b2 = (if failures b1 \<ge> 3 then b1\<lparr>isOpen := True, isHalfOpen := False\<rparr> else b1)
      in cbs(serviceName \<mapsto> b2))"

definition resetCircuitBreaker :: "breakers \<Rightarrow> string \<Rightarrow> breakers" where
  "resetCircuitBreaker cbs serviceName =
     (case cbs serviceName of
        None \<Rightarrow> cbs
      | Some b \<Rightarrow> cbs(serviceName \<mapsto> b\<lparr>failures := 0, isOpen := False, isHalfOpen := False\<rparr>))"

text \<open>
  The three states of the specification, read off the two flags. The gate itself only
  reads \<^verbatim>\<open>isOpen\<close>.
\<close>

datatype circuit_state = Closed | Open | HalfOpen

definition stateOf :: "breaker \<Rightarrow> circuit_state" where
  "stateOf b = (if isOpen b then Open else if isHalfOpen b then HalfOpen else Closed)"

text \<open>
  The breaker maps the gateway can reach: it starts with the empty map and changes it
  only through the three operations, for any service and at any clock reading.
\<close>

inductive reachable :: "breakers \<Rightarrow> bool" where
  init: "reachable Map.empty"
| gate: "reachable cbs \<Longrightarrow> reachable (snd (isCircuitOpen cbs s now))"
| fail: "reachable cbs \<Longrightarrow> reachable (recordFailure cbs s now)"
| reset: "reachable cbs \<Longrightarrow> reachable (resetCircuitBreaker cbs s)"

text \<open>
  The state invariant of a record, and the link between its flags and its count: a
  record is open or half-open exactly when three or more failures are counted.
\<close>

definition breakerInv :: "breaker \<Rightarrow> bool" where
  "breakerInv b \<longleftrightarrow> 0 \<le> failures b \<and> \<not> (isOpen b \<and> isHalfOpen b)"

definition tripped :: "breaker \<Rightarrow> bool" where
  "tripped b \<longleftrightarrow> ((isOpen b \<or> isHalfOpen b) = (3 \<le> failures b))"

section \<open>Values, requests and the outside world\<close>

text \<open>
  JavaScript values as far as JSON bodies, parsed query strings and \<^verbatim>\<open>undefined\<close> go.
  A number is a double; \<open>JNum\<close> carries its exact value, a rational. What rounds
  (adding two doubles, \<^verbatim>\<open>toFixed\<close>) is left to the runtime below.
  Strings are byte strings: a character outside ASCII is its UTF-8 bytes.
\<close>

datatype jsval =
    JUndef
  | JNull
  | JBool bool
  | JNum rat
  | JStr string
  | JArr "jsval list"
  | JObj "(string \<times> jsval) list"

text \<open>Truthiness, as \<^verbatim>\<open>!x\<close>, \<^verbatim>\<open>a || b\<close> and \<^verbatim>\<open>c ? x : y\<close> read it.\<close>

fun truthy :: "jsval \<Rightarrow> bool" where
  "truthy JUndef = False"
| "truthy JNull = False"
| "truthy (JBool b) = b"
| "truthy (JNum r) = (r \<noteq> 0)"
| "truthy (JStr s) = (s \<noteq> [])"
| "truthy (JArr _) = True"
| "truthy (JObj _) = True"

definition startsWith :: "string \<Rightarrow> string \<Rightarrow> bool" where
  "startsWith s p \<longleftrightarrow> take (length p) s = p"

text \<open>
  \<^verbatim>\<open>s.replace(pat, rep)\<close> with a string pattern: the first occurrence only. (The
  replacement the gateway passes is the empty string, so no \<^verbatim>\<open>$\<close> pattern is involved.)
\<close>

fun replaceFirst :: "string \<Rightarrow> string \<Rightarrow> string \<Rightarrow> string" where
  "replaceFirst pat rep [] = (if pat = [] then rep else [])"
| "replaceFirst pat rep (c # cs) =
     (if take (length pat) (c # cs) = pat then rep @ drop (length pat) (c # cs)
      else c # replaceFirst pat rep cs)"

text \<open>The UTF-8 bytes of the accented letters in the gateway's messages.\<close>

definition c_cedilla :: string where "c_cedilla = [CHR 0xC3, CHR 0xA7]"
definition i_acute :: string where "i_acute = [CHR 0xC3, CHR 0xAD]"
definition a_tilde :: string where "a_tilde = [CHR 0xC3, CHR 0xA3]"
definition a_circ :: string where "a_circ = [CHR 0xC3, CHR 0xA2]"
definition e_acute :: string where "e_acute = [CHR 0xC3, CHR 0xA9]"
definition o_acute :: string where "o_acute = [CHR 0xC3, CHR 0xB3]"

text \<open>An entry of \<^verbatim>\<open>this.routeTable\<close>.\<close>

record route =
  prefix :: string
  service :: string
  strip :: string
  forwardBase :: string

definition routeTable :: "route list" where
  "routeTable =
    [\<lparr>prefix = ''/api/auth'', service = ''user-service'', strip = ''/api/auth'', forwardBase = ''/auth''\<rparr>,
     \<lparr>prefix = ''/api/users'', service = ''user-service'', strip = ''/api/users'', forwardBase = ''/users''\<rparr>,
     \<lparr>prefix = ''/api/items'', service = ''item-service'', strip = ''/api/items'', forwardBase = ''/items''\<rparr>,
     \<lparr>prefix = ''/api/lists'', service = ''list-service'', strip = ''/api/lists'', forwardBase = ''/lists''\<rparr>]"

text \<open>
  What the handlers read of an Express request (\<open>httpMethod\<close> is \<^verbatim>\<open>req.method\<close>). \<^verbatim>\<open>originalUrl\<close> is the path with the
  query string; \<^verbatim>\<open>query\<close> is the parsed query object; header names are lower case, as
  Node delivers them.
\<close>

record request =
  httpMethod :: string
  originalUrl :: string
  headers :: "(string \<times> string) list"
  body :: jsval
  query :: "(string \<times> jsval) list"

text \<open>
  The axios request configuration. The fields carry the prefix \<open>c_\<close> to keep them apart
  from the request's; \<^verbatim>\<open>validateStatus\<close> is the same function in every call and is the
  constant \<open>validateStatus\<close> below. An absent field is \<open>None\<close>.
\<close>

record config =
  c_method :: string
  c_url :: string
  c_headers :: "(string \<times> string) list option"
  c_timeout :: nat
  c_family :: nat
  c_data :: "jsval option"
  c_params :: "(string \<times> jsval) list option"

definition validateStatus :: "int \<Rightarrow> bool" where
  "validateStatus status \<longleftrightarrow> status < 500"

text \<open>
  What the transport does with a call: the backend answers with a status and a body, or
  the call fails with an error code and message and no response (connection refused,
  timeout, ...). The backend is a parameter of the model.
\<close>

datatype axios_outcome =
    AxResponse int jsval
  | AxError string string

text \<open>
  Modelled from the spec: \<^verbatim>\<open>shared/serviceRegistry.js\<close> is not among the sources.
  \<^verbatim>\<open>discover(name)\<close> returns the service record or throws (\<open>None\<close>);
  \<^verbatim>\<open>listServices()\<close> returns the mapping from names to records. Of a record the
  gateway reads the field \<^verbatim>\<open>url\<close> only. Both are parameters, with nothing assumed
  about how they relate.
\<close>

record serviceRecord =
  url :: string

record registry =
  discover :: "string \<Rightarrow> serviceRecord option"
  listServices :: "(string \<times> jsval) list"

text \<open>What a handler does to the outside, in order.\<close>

datatype effect =
    RegistryDiscover string
  | RegistryList
  | BackendCall config

record response =
  status :: int
  payload :: jsval

section \<open>Request proxy\<close>

text \<open>Lines 169 to 171 of \<^verbatim>\<open>proxyByEntry\<close>: the rest of the URL after the rule's strip prefix.\<close>

definition rewriteSuffix :: "route \<Rightarrow> string \<Rightarrow> string" where
  "rewriteSuffix entry original =
     (let suffix0 = replaceFirst (strip entry) [] original;
          suffix1 = (if \<not> startsWith suffix0 ''/'' then ''/'' @ suffix0 else suffix0);
          suffix2 = (if suffix1 = ''/'' \<or> suffix1 = [] then [] else suffix1)
      in suffix2)"

definition deleteKey :: "string \<Rightarrow> (string \<times> 'a) list \<Rightarrow> (string \<times> 'a) list" where
  "deleteKey k kvs = filter (\<lambda>kv. fst kv \<noteq> k) kvs"

definition buildConfig :: "route \<Rightarrow> request \<Rightarrow> serviceRecord \<Rightarrow> config" where
  "buildConfig entry req svc =
     (let targetPath = forwardBase entry @ rewriteSuffix entry (originalUrl req);
          targetUrl = url svc @ targetPath
      in \<lparr>c_method = httpMethod req,
          c_url = targetUrl,
          c_headers = Some (deleteKey ''content-length'' (deleteKey ''host'' (headers req))),
          c_timeout = 10000,
          c_family = 4,
          c_data = (if httpMethod req \<in> set [''POST'', ''PUT'', ''PATCH''] then Some (body req) else None),
          c_params = (if length (query req) > 0 then Some (query req) else None)\<rparr>)"

definition circuitOpenBody :: "string \<Rightarrow> jsval" where
  "circuitOpenBody serviceName =
     JObj [(''success'', JBool False),
           (''message'', JStr (''Servi'' @ c_cedilla @ ''o '' @ serviceName @ '' temporariamente indispon'' @ i_acute @ ''vel'')),
           (''service'', JStr serviceName)]"

definition notFoundBody :: "string \<Rightarrow> string list \<Rightarrow> jsval" where
  "notFoundBody serviceName available =
     JObj [(''success'', JBool False),
           (''message'', JStr (''Servi'' @ c_cedilla @ ''o '' @ serviceName @ '' n'' @ a_tilde @ ''o encontrado'')),
           (''availableServices'', JArr (map JStr available))]"

definition unavailableBody :: "string \<Rightarrow> string \<Rightarrow> jsval" where
  "unavailableBody serviceName code =
     JObj [(''success'', JBool False),
           (''message'', JStr (''Servi'' @ c_cedilla @ ''o '' @ serviceName @ '' indispon'' @ i_acute @ ''vel'')),
           (''service'', JStr serviceName),
           (''error'', JStr code)]"

definition internalErrorBody :: "string \<Rightarrow> jsval" where
  "internalErrorBody msg =
     JObj [(''success'', JBool False),
           (''message'', JStr ''Erro interno do gateway''),
           (''service'', JStr ''api-gateway''),
           (''error'', JStr msg)]"

text \<open>
  \<^verbatim>\<open>proxyByEntry(entry, req, res)\<close>. The result is the response sent, the breaker map
  afterwards and the registry and backend calls made. \<open>now\<close> is the clock at the gate
  check, \<open>later\<close> the clock when a failed call is recorded. A response the transport
  rejects (\<open>validateStatus\<close> false) reaches the \<^verbatim>\<open>catch\<close> with \<^verbatim>\<open>error.response\<close> set
  and a code that is neither of the two network codes.
\<close>

definition proxyByEntry ::
  "registry \<Rightarrow> (config \<Rightarrow> axios_outcome) \<Rightarrow> breakers \<Rightarrow> route \<Rightarrow> request \<Rightarrow> int \<Rightarrow> int
     \<Rightarrow> response \<times> breakers \<times> effect list" where
  "proxyByEntry reg backend cbs entry req now later =
     (let serviceName = service entry;
          (blocked, cbs1) = isCircuitOpen cbs serviceName now
      in if blocked
         then (\<lparr>status = 503, payload = circuitOpenBody serviceName\<rparr>, cbs1, [])
         else
           (case discover reg serviceName of
              None \<Rightarrow>
                (\<lparr>status = 503, payload = notFoundBody serviceName (map fst (listServices reg))\<rparr>,
                 cbs1, [RegistryDiscover serviceName, RegistryList])
            | Some svc \<Rightarrow>
                (let cfg = buildConfig entry req svc;
                     effects = [RegistryDiscover serviceName, BackendCall cfg]
                 in case backend cfg of
                      AxResponse st d \<Rightarrow>
                        if validateStatus st
                        then (\<lparr>status = st, payload = d\<rparr>, resetCircuitBreaker cbs1 serviceName, effects)
                        else (\<lparr>status = st, payload = d\<rparr>, recordFailure cbs1 serviceName later, effects)
                    | AxError code msg \<Rightarrow>
                        if code = ''ECONNREFUSED'' \<or> code = ''ETIMEDOUT''
                        then (\<lparr>status = 503, payload = unavailableBody serviceName code\<rparr>,
                              recordFailure cbs1 serviceName later, effects)
                        else (\<lparr>status = 500, payload = internalErrorBody msg\<rparr>,
                              recordFailure cbs1 serviceName later, effects))))"

text \<open>
  The forwarded URL in the specification's words: the backend's base URL, the rule's
  forward base, and the original URL without the rule's strip prefix.
\<close>

definition specForwardUrl :: "route \<Rightarrow> string \<Rightarrow> string \<Rightarrow> string" where
  "specForwardUrl entry base original = base @ forwardBase entry @ drop (length (strip entry)) original"


section \<open>Aggregated endpoints\<close>

text \<open>
  Reading a property. \<open>None\<close> is the \<^verbatim>\<open>TypeError\<close> of reading a property of
  \<^verbatim>\<open>null\<close> or \<^verbatim>\<open>undefined\<close>. The gateway reads the names \<^verbatim>\<open>data\<close>, \<^verbatim>\<open>results\<close>,
  \<^verbatim>\<open>summary\<close>, \<^verbatim>\<open>totalItems\<close>, \<^verbatim>\<open>purchasedItems\<close>, \<^verbatim>\<open>estimatedTotal\<close>, \<^verbatim>\<open>name\<close>,
  \<^verbatim>\<open>items\<close> and \<^verbatim>\<open>itemName\<close> this way; arrays, strings, numbers and booleans have
  none of them.
\<close>

fun getProp :: "jsval \<Rightarrow> string \<Rightarrow> jsval option" where
  "getProp JUndef k = None"
| "getProp JNull k = None"
| "getProp (JObj kvs) k = Some (case map_of kvs k of None \<Rightarrow> JUndef | Some v \<Rightarrow> v)"
| "getProp v k = Some JUndef"

text \<open>\<^verbatim>\<open>a || b\<close> and the optional chaining \<^verbatim>\<open>v?.k\<close>.\<close>

definition orElse :: "jsval \<Rightarrow> jsval \<Rightarrow> jsval" where
  "orElse a b = (if truthy a then a else b)"

definition optProp :: "jsval \<Rightarrow> string \<Rightarrow> jsval" where
  "optProp v k = (case getProp v k of None \<Rightarrow> JUndef | Some x \<Rightarrow> x)"

text \<open>
  The built-ins the model does not write out are parameters, with nothing assumed about
  them: \<^verbatim>\<open>Number(v)\<close> of a string, an array or an object (\<open>None\<close> is \<^verbatim>\<open>NaN\<close>),
  \<^verbatim>\<open>String(v)\<close> of a value that is not a string, \<^verbatim>\<open>toLowerCase\<close>, the sum of two
  doubles (\<^verbatim>\<open>a + b\<close>, \<^verbatim>\<open>a += b\<close>) and \<^verbatim>\<open>Number(x.toFixed(2))\<close>.
\<close>

record runtime =
  toNumber :: "jsval \<Rightarrow> rat option"
  toString :: "jsval \<Rightarrow> string"
  toLowerCase :: "string \<Rightarrow> string"
  addDouble :: "rat \<Rightarrow> rat \<Rightarrow> rat"
  toFixed2 :: "rat \<Rightarrow> rat"

definition jsNumber :: "runtime \<Rightarrow> jsval \<Rightarrow> rat option" where
  "jsNumber rt v =
     (case v of
        JUndef \<Rightarrow> None
      | JNull \<Rightarrow> Some 0
      | JBool b \<Rightarrow> Some (if b then 1 else 0)
      | JNum r \<Rightarrow> Some r
      | _ \<Rightarrow> toNumber rt v)"

text \<open>\<^verbatim>\<open>Number(v) || 0\<close>: \<^verbatim>\<open>NaN\<close> and 0 both give 0.\<close>

definition numOrZero :: "runtime \<Rightarrow> jsval \<Rightarrow> rat" where
  "numOrZero rt v = (case jsNumber rt v of None \<Rightarrow> 0 | Some r \<Rightarrow> r)"

definition jsString :: "runtime \<Rightarrow> jsval \<Rightarrow> string" where
  "jsString rt v = (case v of JStr s \<Rightarrow> s | _ \<Rightarrow> toString rt v)"

text \<open>\<^verbatim>\<open>s.includes(t)\<close>.\<close>

fun includesStr :: "string \<Rightarrow> string \<Rightarrow> bool" where
  "includesStr [] t = (t = [])"
| "includesStr (c # cs) t = (startsWith (c # cs) t \<or> includesStr cs t)"

text \<open>
  \<^verbatim>\<open>v.slice(0, n)\<close>: arrays and strings have the method; on anything else the call is a
  \<^verbatim>\<open>TypeError\<close> (no JSON value is a function).
\<close>

definition sliceTo :: "nat \<Rightarrow> jsval \<Rightarrow> jsval option" where
  "sliceTo n v =
     (case v of
        JArr xs \<Rightarrow> Some (JArr (take n xs))
      | JStr s \<Rightarrow> Some (JStr (take n s))
      | _ \<Rightarrow> None)"

text \<open>One entry of what \<^verbatim>\<open>Promise.allSettled\<close> resolves to.\<close>

datatype settled = Rejected | Fulfilled jsval

text \<open>
  \<^verbatim>\<open>callService(serviceName, path, method, authHeader, params, data)\<close>: the promise's
  outcome and the calls made. \<^verbatim>\<open>null\<close> for the header is \<open>None\<close>, \<^verbatim>\<open>null\<close> for the data
  is \<open>JNull\<close>, \<^verbatim>\<open>{}\<close> for the parameters is the empty list.
\<close>

definition callService ::
  "registry \<Rightarrow> (config \<Rightarrow> axios_outcome) \<Rightarrow> string \<Rightarrow> string \<Rightarrow> string \<Rightarrow> string option
     \<Rightarrow> (string \<times> jsval) list \<Rightarrow> jsval \<Rightarrow> settled \<times> effect list" where
  "callService reg backend serviceName path meth authHeader params dat =
     (case discover reg serviceName of
        None \<Rightarrow> (Rejected, [RegistryDiscover serviceName])
      | Some svc \<Rightarrow>
          (let cfg = \<lparr>c_method = meth,
                      c_url = url svc @ path,
                      c_headers = (case authHeader of
                                     None \<Rightarrow> None
                                   | Some h \<Rightarrow> if h \<noteq> [] then Some [(''Authorization'', h)] else None),
                      c_timeout = 10000,
                      c_family = 4,
                      c_data = (if meth \<in> set [''POST'', ''PUT'', ''PATCH''] \<and> truthy dat then Some dat else None),
                      c_params = (if meth = ''GET'' \<and> length params > 0 then Some params else None)\<rparr>;
               effects = [RegistryDiscover serviceName, BackendCall cfg]
           in case backend cfg of
                AxResponse st d \<Rightarrow> if validateStatus st then (Fulfilled d, effects) else (Rejected, effects)
              | AxError code msg \<Rightarrow> (Rejected, effects)))"

text \<open>\<^verbatim>\<open>req.header('Authorization')\<close>; the header is absent or falsy when this is not \<open>Some\<close> of a non-empty string.\<close>

definition authorizationOf :: "request \<Rightarrow> string option" where
  "authorizationOf req = map_of (headers req) ''authorization''"

definition present :: "string option \<Rightarrow> bool" where
  "present h = (case h of None \<Rightarrow> False | Some s \<Rightarrow> s \<noteq> [])"

subsection \<open>\<^verbatim>\<open>/api/dashboard\<close>\<close>

text \<open>\<^verbatim>\<open>r.status === 'fulfilled' ? r.value.data || r.value : []\<close>\<close>

definition branchData :: "settled \<Rightarrow> jsval option" where
  "branchData r =
     (case r of
        Rejected \<Rightarrow> Some (JArr [])
      | Fulfilled v \<Rightarrow> (case getProp v ''data'' of None \<Rightarrow> None | Some d \<Rightarrow> Some (orElse d v)))"

text \<open>The loop over the lists, adding up their summaries (total items, purchased items, estimated total).\<close>

fun sumSummaries :: "runtime \<Rightarrow> jsval list \<Rightarrow> rat \<times> rat \<times> rat \<Rightarrow> (rat \<times> rat \<times> rat) option" where
  "sumSummaries rt [] acc = Some acc"
| "sumSummaries rt (l # ls) (totalItems, purchasedItems, estimatedTotal) =
     (case getProp l ''summary'' of
        None \<Rightarrow> None
      | Some sv \<Rightarrow>
          (let s = orElse sv (JObj [(''totalItems'', JNum 0), (''purchasedItems'', JNum 0), (''estimatedTotal'', JNum 0)])
           in sumSummaries rt ls
                (addDouble rt totalItems (numOrZero rt (optProp s ''totalItems'')),
                 addDouble rt purchasedItems (numOrZero rt (optProp s ''purchasedItems'')),
                 addDouble rt estimatedTotal (numOrZero rt (optProp s ''estimatedTotal'')))))"

text \<open>
  The four totals (lists, items, purchased items, estimated total): 0 unless
  \<^verbatim>\<open>Array.isArray(lists)\<close>.
\<close>

definition listTotals :: "runtime \<Rightarrow> jsval \<Rightarrow> (rat \<times> rat \<times> rat \<times> rat) option" where
  "listTotals rt userLists =
     (case userLists of
        JArr ls \<Rightarrow> map_option (\<lambda>totals. (of_nat (length ls), totals)) (sumSummaries rt ls (0, 0, 0))
      | _ \<Rightarrow> Some (0, 0, 0, 0))"

text \<open>\<^verbatim>\<open>items.slice ? items.slice(0, 5) : items\<close>\<close>

definition sampleItemsOf :: "jsval \<Rightarrow> jsval option" where
  "sampleItemsOf items =
     (case items of
        JUndef \<Rightarrow> None
      | JNull \<Rightarrow> None
      | JArr xs \<Rightarrow> Some (JArr (take 5 xs))
      | JStr s \<Rightarrow> Some (JStr (take 5 s))
      | JObj kvs \<Rightarrow> if truthy (optProp items ''slice'') then None else Some items
      | _ \<Rightarrow> Some items)"

definition unauthorizedBody :: jsval where
  "unauthorizedBody =
     JObj [(''success'', JBool False),
           (''message'', JStr (''Token de autentica'' @ c_cedilla @ a_tilde @ ''o obrigat'' @ o_acute @ ''rio''))]"

definition dashboardErrorBody :: jsval where
  "dashboardErrorBody = JObj [(''success'', JBool False), (''message'', JStr ''Erro ao agregar dashboard'')]"

text \<open>The three calls handed to \<^verbatim>\<open>Promise.allSettled\<close>.\<close>

definition listsCall :: "registry \<Rightarrow> (config \<Rightarrow> axios_outcome) \<Rightarrow> string option \<Rightarrow> settled \<times> effect list" where
  "listsCall reg backend authHeader =
     callService reg backend ''list-service'' ''/lists'' ''GET'' authHeader [(''limit'', JNum 50)] JNull"

definition itemsCall :: "registry \<Rightarrow> (config \<Rightarrow> axios_outcome) \<Rightarrow> settled \<times> effect list" where
  "itemsCall reg backend =
     callService reg backend ''item-service'' ''/items'' ''GET'' None [(''limit'', JNum 10)] JNull"

definition categoriesCall :: "registry \<Rightarrow> (config \<Rightarrow> axios_outcome) \<Rightarrow> settled \<times> effect list" where
  "categoriesCall reg backend =
     callService reg backend ''item-service'' ''/categories'' ''GET'' None [] JNull"

text \<open>
  \<^verbatim>\<open>getDashboard(req, res)\<close>. \<open>timestamp\<close> is \<^verbatim>\<open>new Date().toISOString()\<close>. Every
  \<^verbatim>\<open>TypeError\<close> ends in the \<^verbatim>\<open>catch\<close>, that is in the 500 answer. The three calls are
  issued one after the other before any is awaited; the registry is listed while the
  answer is put together.
\<close>

definition getDashboard ::
  "runtime \<Rightarrow> registry \<Rightarrow> (config \<Rightarrow> axios_outcome) \<Rightarrow> request \<Rightarrow> string \<Rightarrow> response \<times> effect list" where
  "getDashboard rt reg backend req timestamp =
     (let authHeader = authorizationOf req
      in if \<not> present authHeader
         then (\<lparr>status = 401, payload = unauthorizedBody\<rparr>, [])
         else
           (let (listsRes, e1) = listsCall reg backend authHeader;
                (itemsRes, e2) = itemsCall reg backend;
                (catsRes, e3) = categoriesCall reg backend;
                calls = e1 @ e2 @ e3;
                failed = \<lparr>status = 500, payload = dashboardErrorBody\<rparr>
            in case branchData listsRes of
                 None \<Rightarrow> (failed, calls)
               | Some userLists \<Rightarrow>
             (case branchData itemsRes of
                 None \<Rightarrow> (failed, calls)
               | Some items \<Rightarrow>
             (case branchData catsRes of
                 None \<Rightarrow> (failed, calls)
               | Some categories \<Rightarrow>
             (case listTotals rt userLists of
                 None \<Rightarrow> (failed, calls)
               | Some (totalLists, totalItems, purchasedItems, estimatedTotal) \<Rightarrow>
             (case sliceTo 5 userLists of
                 None \<Rightarrow> (failed, calls @ [RegistryList])
               | Some sample \<Rightarrow>
             (case sampleItemsOf items of
                 None \<Rightarrow> (failed, calls @ [RegistryList])
               | Some sampleItems \<Rightarrow>
                 (\<lparr>status = 200,
                   payload =
                     JObj [(''success'', JBool True),
                           (''data'',
                            JObj [(''timestamp'', JStr timestamp),
                                  (''services'', JObj (listServices reg)),
                                  (''lists'',
                                   JObj [(''totalLists'', JNum totalLists),
                                         (''totalItems'', JNum totalItems),
                                         (''purchasedItems'', JNum purchasedItems),
                                         (''estimatedTotal'', JNum (toFixed2 rt estimatedTotal)),
                                         (''sample'', sample)]),
                                  (''catalog'',
                                   JObj [(''sampleItems'', sampleItems),
                                         (''categories'', categories)])])]\<rparr>,
                  calls @ [RegistryList]))))))))"

subsection \<open>\<^verbatim>\<open>/api/search\<close>\<close>

text \<open>\<^verbatim>\<open>(v || '').toLowerCase().includes(term)\<close>; only a string has \<^verbatim>\<open>toLowerCase\<close>.\<close>

definition lowerIncludes :: "runtime \<Rightarrow> jsval \<Rightarrow> string \<Rightarrow> bool option" where
  "lowerIncludes rt v searchTerm =
     (case orElse v (JStr []) of
        JStr s \<Rightarrow> Some (includesStr (toLowerCase rt s) searchTerm)
      | _ \<Rightarrow> None)"

text \<open>\<^verbatim>\<open>xs.some(it => (it.itemName || '').toLowerCase().includes(term))\<close>, stopping at the first hit.\<close>

fun someItemHit :: "runtime \<Rightarrow> string \<Rightarrow> jsval list \<Rightarrow> bool option" where
  "someItemHit rt searchTerm [] = Some False"
| "someItemHit rt searchTerm (it # its) =
     (case getProp it ''itemName'' of
        None \<Rightarrow> None
      | Some nm \<Rightarrow>
          (case lowerIncludes rt nm searchTerm of
             None \<Rightarrow> None
           | Some hit \<Rightarrow> if hit then Some True else someItemHit rt searchTerm its))"

text \<open>
  The callback handed to \<^verbatim>\<open>filter\<close>: both hits are computed, then joined;
  \<open>filterLists\<close> is the filter itself.
\<close>

definition matchesList :: "runtime \<Rightarrow> string \<Rightarrow> jsval \<Rightarrow> bool option" where
  "matchesList rt searchTerm l =
     (case getProp l ''name'' of
        None \<Rightarrow> None
      | Some nm \<Rightarrow>
          (case lowerIncludes rt nm searchTerm of
             None \<Rightarrow> None
           | Some nameHit \<Rightarrow>
               (case orElse (optProp l ''items'') (JArr []) of
                  JArr its \<Rightarrow>
                    (case someItemHit rt searchTerm its of
                       None \<Rightarrow> None
                     | Some itemHit \<Rightarrow> Some (nameHit \<or> itemHit))
                | _ \<Rightarrow> None)))"

fun filterLists :: "runtime \<Rightarrow> string \<Rightarrow> jsval list \<Rightarrow> jsval list option" where
  "filterLists rt searchTerm [] = Some []"
| "filterLists rt searchTerm (l # ls) =
     (case matchesList rt searchTerm l of
        None \<Rightarrow> None
      | Some hit \<Rightarrow>
          (case filterLists rt searchTerm ls of
             None \<Rightarrow> None
           | Some rest \<Rightarrow> Some (if hit then l # rest else rest)))"

definition missingQueryBody :: jsval where
  "missingQueryBody =
     JObj [(''success'', JBool False),
           (''message'', JStr (''Par'' @ a_circ @ ''metro '' @ [CHR 0x22] @ ''q'' @ [CHR 0x22] @ '' '' @ e_acute
                               @ '' obrigat'' @ o_acute @ ''rio''))]"

definition searchErrorBody :: jsval where
  "searchErrorBody = JObj [(''success'', JBool False), (''message'', JStr ''Erro na busca global'')]"

text \<open>
  \<^verbatim>\<open>globalSearch(req, res)\<close>. The second call is made only with an Authorization header;
  without it \<^verbatim>\<open>listsRes\<close> is \<^verbatim>\<open>undefined\<close> (\<open>None\<close>).
\<close>

definition globalSearch ::
  "runtime \<Rightarrow> registry \<Rightarrow> (config \<Rightarrow> axios_outcome) \<Rightarrow> request \<Rightarrow> response \<times> effect list" where
  "globalSearch rt reg backend req =
     (let q = (case map_of (query req) ''q'' of None \<Rightarrow> JUndef | Some v \<Rightarrow> v)
      in if \<not> truthy q
         then (\<lparr>status = 400, payload = missingQueryBody\<rparr>, [])
         else
           (let authHeader = (if present (authorizationOf req) then authorizationOf req else None);
                (itemsRes, e1) = callService reg backend ''item-service'' ''/search'' ''GET'' None [(''q'', q)] JNull;
                (listsRes, e2) =
                   (if present authHeader
                    then (let (r, e) = callService reg backend ''list-service'' ''/lists'' ''GET'' authHeader
                                         [(''limit'', JNum 100)] JNull
                          in (Some r, e))
                    else (None, []));
                calls = e1 @ e2;
                failed = \<lparr>status = 500, payload = searchErrorBody\<rparr>;
                itemResults =
                   (case itemsRes of
                      Fulfilled v \<Rightarrow>
                        orElse (optProp (optProp v ''data'') ''results'')
                          (orElse (optProp v ''data'') (orElse (optProp v ''results'') (JArr [])))
                    | Rejected \<Rightarrow> JArr []);
                listMatches =
                   (case listsRes of
                      Some (Fulfilled v) \<Rightarrow>
                        (let userLists = (case optProp v ''data'' of JArr xs \<Rightarrow> JArr xs | _ \<Rightarrow> v);
                             searchTerm = toLowerCase rt (jsString rt q)
                         in case orElse userLists (JArr []) of
                              JArr ls \<Rightarrow> filterLists rt searchTerm ls
                            | _ \<Rightarrow> None)
                    | _ \<Rightarrow> Some [])
            in case listMatches of
                 None \<Rightarrow> (failed, calls)
               | Some found \<Rightarrow>
                   (case (case itemResults of
                            JArr xs \<Rightarrow> Some (JNum (of_nat (length xs)), JArr (take 20 xs))
                          | JStr s \<Rightarrow> Some (JNum (of_nat (length s)), JStr (take 20 s))
                          | _ \<Rightarrow> None) of
                      None \<Rightarrow> (failed, calls)
                    | Some (itemTotal, itemSlice) \<Rightarrow>
                        (\<lparr>status = 200,
                          payload =
                            JObj [(''success'', JBool True),
                                  (''data'',
                                   JObj [(''query'', q),
                                         (''items'', JObj [(''total'', itemTotal), (''results'', itemSlice)]),
                                         (''lists'',
                                          JObj [(''total'', JNum (of_nat (length found))),
                                                (''results'', JArr (take 10 found))])])]\<rparr>,
                         calls))))"

section \<open>Health checks\<close>

text \<open>
  The callback \<^verbatim>\<open>startHealthChecks\<close> hands to \<^verbatim>\<open>setInterval\<close> and
  \<^verbatim>\<open>setTimeout\<close>: it awaits \<^verbatim>\<open>serviceRegistry.performHealthChecks()\<close> and swallows
  what that throws. The gateway's state is the breaker map and the registry;
  \<open>perform\<close> is what the registry module does to the registry, thrown or not.
\<close>

definition healthCheckTick ::
  "(registry \<Rightarrow> registry) \<Rightarrow> breakers \<times> registry \<Rightarrow> breakers \<times> registry" where
  "healthCheckTick perform st = (fst st, perform (snd st))"


section \<open>Sample inputs\<close>

text \<open>Concrete requests, registries, backends and breaker maps on which the theorems are run.\<close>

definition itemsRule :: route where
  "itemsRule = \<lparr>prefix = ''/api/items'', service = ''item-service'', strip = ''/api/items'', forwardBase = ''/items''\<rparr>"

definition getItem42 :: request where
  "getItem42 =
     \<lparr>httpMethod = ''GET'', originalUrl = ''/api/items/42'',
      headers = [(''host'', ''localhost:3000''), (''accept'', ''application/json''), (''content-length'', ''0'')],
      body = JUndef, query = []\<rparr>"

definition itemRegistry :: registry where
  "itemRegistry =
     \<lparr>discover = (\<lambda>n. if n = ''item-service'' then Some \<lparr>url = ''http://localhost:3003''\<rparr> else None),
      listServices = [(''item-service'', JObj [(''url'', JStr ''http://localhost:3003''), (''healthy'', JBool True)])]\<rparr>"

definition userOnlyRegistry :: registry where
  "userOnlyRegistry =
     \<lparr>discover = (\<lambda>n. if n = ''user-service'' then Some \<lparr>url = ''http://localhost:3001''\<rparr> else None),
      listServices = [(''user-service'', JObj [(''url'', JStr ''http://localhost:3001''), (''healthy'', JBool True)])]\<rparr>"

definition notFound404 :: "config \<Rightarrow> axios_outcome" where
  "notFound404 cfg = AxResponse 404 (JObj [(''success'', JBool False)])"

definition refused :: "config \<Rightarrow> axios_outcome" where
  "refused cfg = AxError ''ECONNREFUSED'' ''connect ECONNREFUSED 127.0.0.1:3003''"

text \<open>Two failures of the item service recorded, then a third, then a gate check after the cool-down.\<close>

definition twoFailures :: breakers where
  "twoFailures = recordFailure (recordFailure Map.empty ''item-service'' 1000) ''item-service'' 2000"

definition threeFailures :: breakers where
  "threeFailures = recordFailure twoFailures ''item-service'' 3000"

definition afterCoolDown :: breakers where
  "afterCoolDown = snd (isCircuitOpen threeFailures ''item-service'' 33001)"


text \<open>
  A dashboard request with a token, against a registry that knows the item service only
  (so the call to the list service is rejected) and a backend that answers the two
  catalog calls with the item service's envelopes; two searches without a term.
\<close>

definition plainRuntime :: runtime where
  "plainRuntime =
     \<lparr>toNumber = (\<lambda>v. None), toString = (\<lambda>v. []), toLowerCase = (\<lambda>s. s),
      addDouble = (\<lambda>a b. a + b), toFixed2 = (\<lambda>x. x)\<rparr>"

definition dashboardRequest :: request where
  "dashboardRequest =
     \<lparr>httpMethod = ''GET'', originalUrl = ''/api/dashboard'',
      headers = [(''host'', ''localhost:3000''), (''authorization'', ''Bearer abc'')],
      body = JUndef, query = []\<rparr>"

definition itemsEnvelope :: jsval where
  "itemsEnvelope =
     JObj [(''success'', JBool True),
           (''data'', JArr [JObj [(''id'', JStr ''i1''), (''name'', JStr ''Detergente 500ml'')]])]"

definition categoriesEnvelope :: jsval where
  "categoriesEnvelope = JObj [(''success'', JBool True), (''data'', JArr [JStr ''Alimentos'', JStr ''Limpeza''])]"

definition catalogBackend :: "config \<Rightarrow> axios_outcome" where
  "catalogBackend cfg =
     (if c_url cfg = ''http://localhost:3003/items'' then AxResponse 200 itemsEnvelope
      else if c_url cfg = ''http://localhost:3003/categories'' then AxResponse 200 categoriesEnvelope
      else AxError ''ECONNREFUSED'' ''connect ECONNREFUSED'')"

text \<open>
  Both services registered, and a backend where the list service turns the token down
  (the 401 of its \<^verbatim>\<open>authMiddleware\<close>) while the item service answers as before.
\<close>

definition bothRegistry :: registry where
  "bothRegistry =
     \<lparr>discover = (\<lambda>n. if n = ''list-service'' then Some \<lparr>url = ''http://localhost:3002''\<rparr>
                      else if n = ''item-service'' then Some \<lparr>url = ''http://localhost:3003''\<rparr>
                      else None),
      listServices = [(''list-service'', JObj [(''url'', JStr ''http://localhost:3002''), (''healthy'', JBool True)]),
                      (''item-service'', JObj [(''url'', JStr ''http://localhost:3003''), (''healthy'', JBool True)])]\<rparr>"

definition tokenInvalidEnvelope :: jsval where
  "tokenInvalidEnvelope =
     JObj [(''success'', JBool False), (''message'', JStr (''Token inv'' @ [CHR 0xC3, CHR 0xA1] @ ''lido''))]"

definition listsUnauthorizedBackend :: "config \<Rightarrow> axios_outcome" where
  "listsUnauthorizedBackend cfg =
     (if c_url cfg = ''http://localhost:3002/lists'' then AxResponse 401 tokenInvalidEnvelope
      else catalogBackend cfg)"

definition searchNoQuery :: request where
  "searchNoQuery =
     \<lparr>httpMethod = ''GET'', originalUrl = ''/api/search'',
      headers = [(''host'', ''localhost:3000''), (''authorization'', ''Bearer abc'')],
      body = JUndef, query = []\<rparr>"

definition searchEmptyQuery :: request where
  "searchEmptyQuery =
     \<lparr>httpMethod = ''GET'', originalUrl = ''/api/search?q='',
      headers = [(''host'', ''localhost:3000'')],
      body = JUndef, query = [(''q'', JStr [])]\<rparr>"


section \<open>Properties of the circuit breaker\<close>

text \<open>What each operation leaves under a service name.\<close>

lemma gate_lookup:
  "snd (isCircuitOpen cbs s now) n =
     (if n = s then
        (case cbs s of None \<Rightarrow> None
         | Some b \<Rightarrow> Some (if isOpen b \<and> now - lastFailure b > 30000
                           then b\<lparr>isOpen := False, isHalfOpen := True\<rparr> else b))
      else cbs n)"
  by (simp add: isCircuitOpen_def split: option.splits)

lemma fail_lookup:
  "recordFailure cbs s now n =
     (if n = s then
        (let b = (case cbs s of None \<Rightarrow> freshBreaker | Some b0 \<Rightarrow> b0)
         in Some (if failures b + 1 \<ge> 3
                  then b\<lparr>failures := failures b + 1, lastFailure := now, isOpen := True, isHalfOpen := False\<rparr>
                  else b\<lparr>failures := failures b + 1, lastFailure := now\<rparr>))
      else cbs n)"
  by (simp add: recordFailure_def Let_def)

lemma reset_lookup:
  "resetCircuitBreaker cbs s n =
     (if n = s then
        (case cbs s of None \<Rightarrow> None
         | Some b \<Rightarrow> Some (b\<lparr>failures := 0, isOpen := False, isHalfOpen := False\<rparr>))
      else cbs n)"
  by (simp add: resetCircuitBreaker_def split: option.splits)

lemma gate_keeps_inv:
  assumes "\<forall>n b. cbs n = Some b \<longrightarrow> breakerInv b \<and> tripped b"
    and "snd (isCircuitOpen cbs s now) n = Some b"
  shows "breakerInv b \<and> tripped b"
proof (cases "n = s")
  case False
  with assms show ?thesis by (simp add: gate_lookup)
next
  case True
  with assms(2) obtain b0 where b0: "cbs s = Some b0"
    and b: "b = (if isOpen b0 \<and> now - lastFailure b0 > 30000
                 then b0\<lparr>isOpen := False, isHalfOpen := True\<rparr> else b0)"
    by (auto simp: gate_lookup split: option.splits)
  from assms(1) b0 have "breakerInv b0 \<and> tripped b0" by blast
  with b show ?thesis by (auto simp: breakerInv_def tripped_def)
qed

lemma fail_keeps_inv:
  assumes "\<forall>n b. cbs n = Some b \<longrightarrow> breakerInv b \<and> tripped b"
    and "recordFailure cbs s now n = Some b"
  shows "breakerInv b \<and> tripped b"
proof (cases "n = s")
  case False
  with assms show ?thesis by (simp add: fail_lookup)
next
  case True
  define b0 where "b0 = (case cbs s of None \<Rightarrow> freshBreaker | Some b0 \<Rightarrow> b0)"
  have "breakerInv b0 \<and> tripped b0"
    using assms(1) by (auto simp: b0_def freshBreaker_def breakerInv_def tripped_def split: option.splits)
  moreover have "b = (if failures b0 + 1 \<ge> 3
                  then b0\<lparr>failures := failures b0 + 1, lastFailure := now, isOpen := True, isHalfOpen := False\<rparr>
                  else b0\<lparr>failures := failures b0 + 1, lastFailure := now\<rparr>)"
    using assms(2) True by (auto simp: fail_lookup b0_def Let_def split: if_splits)
  ultimately show ?thesis by (auto simp: breakerInv_def tripped_def)
qed

lemma reset_keeps_inv:
  assumes "\<forall>n b. cbs n = Some b \<longrightarrow> breakerInv b \<and> tripped b"
    and "resetCircuitBreaker cbs s n = Some b"
  shows "breakerInv b \<and> tripped b"
proof (cases "n = s")
  case False
  with assms show ?thesis by (simp add: reset_lookup)
next
  case True
  with assms(2) show ?thesis
    by (auto simp: reset_lookup breakerInv_def tripped_def split: option.splits)
qed

lemma reachable_inv:
  "reachable cbs \<Longrightarrow> \<forall>n b. cbs n = Some b \<longrightarrow> breakerInv b \<and> tripped b"
proof (induction rule: reachable.induct)
  case init
  show ?case by simp
next
  case (gate cbs s now)
  then show ?case using gate_keeps_inv by blast
next
  case (fail cbs s now)
  then show ?case using fail_keeps_inv by blast
next
  case (reset cbs s)
  then show ?case using reset_keeps_inv by blast
qed

lemma gate_keeps_flags:
  assumes "\<forall>n b. cbs n = Some b \<longrightarrow> breakerInv b"
    and "snd (isCircuitOpen cbs s now) n = Some b"
  shows "breakerInv b"
proof (cases "n = s")
  case False
  with assms show ?thesis by (simp add: gate_lookup)
next
  case True
  with assms(2) obtain b0 where b0: "cbs s = Some b0"
    and b: "b = (if isOpen b0 \<and> now - lastFailure b0 > 30000
                 then b0\<lparr>isOpen := False, isHalfOpen := True\<rparr> else b0)"
    by (auto simp: gate_lookup split: option.splits)
  from assms(1) b0 have "breakerInv b0" by blast
  with b show ?thesis by (auto simp: breakerInv_def)
qed

lemma fail_keeps_flags:
  assumes "\<forall>n b. cbs n = Some b \<longrightarrow> breakerInv b"
    and "recordFailure cbs s now n = Some b"
  shows "breakerInv b"
proof (cases "n = s")
  case False
  with assms show ?thesis by (simp add: fail_lookup)
next
  case True
  define b0 where "b0 = (case cbs s of None \<Rightarrow> freshBreaker | Some b0 \<Rightarrow> b0)"
  have "breakerInv b0"
    using assms(1) by (auto simp: b0_def freshBreaker_def breakerInv_def split: option.splits)
  moreover have "b = (if failures b0 + 1 \<ge> 3
                  then b0\<lparr>failures := failures b0 + 1, lastFailure := now, isOpen := True, isHalfOpen := False\<rparr>
                  else b0\<lparr>failures := failures b0 + 1, lastFailure := now\<rparr>)"
    using assms(2) True by (auto simp: fail_lookup b0_def Let_def split: if_splits)
  ultimately show ?thesis by (auto simp: breakerInv_def)
qed

lemma reset_keeps_flags:
  assumes "\<forall>n b. cbs n = Some b \<longrightarrow> breakerInv b"
    and "resetCircuitBreaker cbs s n = Some b"
  shows "breakerInv b"
proof (cases "n = s")
  case False
  with assms show ?thesis by (simp add: reset_lookup)
next
  case True
  with assms(2) show ?thesis
    by (auto simp: reset_lookup breakerInv_def split: option.splits)
qed


lemma gate_blocked_iff:
  "fst (isCircuitOpen cbs s now) \<longleftrightarrow>
     (\<exists>b. cbs s = Some b \<and> isOpen b \<and> now - lastFailure b \<le> 30000)"
  by (auto simp: isCircuitOpen_def split: option.splits)


lemma proxy_unknown:
  assumes "\<not> fst (isCircuitOpen cbs (service entry) now)" "discover reg (service entry) = None"
  shows "proxyByEntry reg backend cbs entry req now later =
           (\<lparr>status = 503, payload = notFoundBody (service entry) (map fst (listServices reg))\<rparr>,
            snd (isCircuitOpen cbs (service entry) now),
            [RegistryDiscover (service entry), RegistryList])"
  using assms by (simp add: proxyByEntry_def Let_def case_prod_beta)

lemma proxy_success:
  assumes "\<not> fst (isCircuitOpen cbs (service entry) now)" "discover reg (service entry) = Some svc"
    and "backend (buildConfig entry req svc) = AxResponse st d" "st < 500"
  shows "proxyByEntry reg backend cbs entry req now later =
           (\<lparr>status = st, payload = d\<rparr>,
            resetCircuitBreaker (snd (isCircuitOpen cbs (service entry) now)) (service entry),
            [RegistryDiscover (service entry), BackendCall (buildConfig entry req svc)])"
  using assms by (simp add: proxyByEntry_def Let_def validateStatus_def case_prod_beta)

lemma proxy_failure:
  assumes "\<not> fst (isCircuitOpen cbs (service entry) now)" "discover reg (service entry) = Some svc"
    and "(\<exists>st d. backend (buildConfig entry req svc) = AxResponse st d \<and> 500 \<le> st) \<or>
         (\<exists>c m. backend (buildConfig entry req svc) = AxError c m)"
  shows "fst (snd (proxyByEntry reg backend cbs entry req now later)) =
            recordFailure (snd (isCircuitOpen cbs (service entry) now)) (service entry) later"
  using assms by (auto simp: proxyByEntry_def Let_def validateStatus_def case_prod_beta)

text \<open>The sample breaker maps, evaluated.\<close>

lemma twoFailures_item:
  "twoFailures ''item-service'' = Some \<lparr>failures = 2, isOpen = False, isHalfOpen = False, lastFailure = 2000\<rparr>"
  by (simp add: twoFailures_def fail_lookup freshBreaker_def Let_def)

lemma threeFailures_item:
  "threeFailures ''item-service'' = Some \<lparr>failures = 3, isOpen = True, isHalfOpen = False, lastFailure = 3000\<rparr>"
  by (simp add: threeFailures_def fail_lookup twoFailures_item Let_def)

lemma afterCoolDown_item:
  "afterCoolDown ''item-service'' = Some \<lparr>failures = 3, isOpen = False, isHalfOpen = True, lastFailure = 3000\<rparr>"
  by (simp add: afterCoolDown_def gate_lookup threeFailures_item)

lemma reachable_twoFailures: "reachable twoFailures"
  unfolding twoFailures_def by (intro reachable.intros)

lemma reachable_threeFailures: "reachable threeFailures"
  unfolding threeFailures_def by (intro reachable.intros reachable_twoFailures)

lemma reachable_afterCoolDown: "reachable afterCoolDown"
  unfolding afterCoolDown_def by (intro reachable.intros reachable_threeFailures)


text \<open>
  Claim C10. In every breaker map the gateway can reach, no record has \<^verbatim>\<open>isOpen\<close> and
  \<^verbatim>\<open>isHalfOpen\<close> both true and every \<^verbatim>\<open>failures\<close> is a non-negative integer; and
  each of the three operations (the gate check with its demotion, recording a failure,
  the reset after a success) keeps this invariant, from any map that has it.
\<close>

theorem breaker_invariant:
  "(reachable cbs \<longrightarrow> (\<forall>n b. cbs n = Some b \<longrightarrow> breakerInv b)) \<and>
   ((\<forall>n b. cbs n = Some b \<longrightarrow> breakerInv b) \<longrightarrow>
      (\<forall>s now n b.
         (snd (isCircuitOpen cbs s now) n = Some b \<longrightarrow> breakerInv b) \<and>
         (recordFailure cbs s now n = Some b \<longrightarrow> breakerInv b) \<and>
         (resetCircuitBreaker cbs s n = Some b \<longrightarrow> breakerInv b)))"
proof (intro conjI impI allI)
  assume "reachable cbs"
  then show "\<And>n b. cbs n = Some b \<Longrightarrow> breakerInv b" using reachable_inv by blast
next
  fix s now n b
  assume a: "\<forall>n b. cbs n = Some b \<longrightarrow> breakerInv b"
  show "snd (isCircuitOpen cbs s now) n = Some b \<Longrightarrow> breakerInv b"
    using a by (rule gate_keeps_flags)
  show "recordFailure cbs s now n = Some b \<Longrightarrow> breakerInv b"
    using a by (rule fail_keeps_flags)
  show "resetCircuitBreaker cbs s n = Some b \<Longrightarrow> breakerInv b"
    using a by (rule reset_keeps_flags)
qed


theorem breaker_invariant_witness:
  "reachable twoFailures \<and>
   twoFailures ''item-service'' = Some \<lparr>failures = 2, isOpen = False, isHalfOpen = False, lastFailure = 2000\<rparr> \<and>
   breakerInv \<lparr>failures = 2, isOpen = False, isHalfOpen = False, lastFailure = 2000\<rparr> \<and>
   recordFailure twoFailures ''item-service'' 3000 ''item-service'' =
     Some \<lparr>failures = 3, isOpen = True, isHalfOpen = False, lastFailure = 3000\<rparr> \<and>
   breakerInv \<lparr>failures = 3, isOpen = True, isHalfOpen = False, lastFailure = 3000\<rparr> \<and>
   resetCircuitBreaker twoFailures ''item-service'' ''item-service'' =
     Some \<lparr>failures = 0, isOpen = False, isHalfOpen = False, lastFailure = 2000\<rparr> \<and>
   breakerInv \<lparr>failures = 0, isOpen = False, isHalfOpen = False, lastFailure = 2000\<rparr>"
proof -
  note inv = breaker_invariant [of twoFailures]
  have r: "reachable twoFailures" by (rule reachable_twoFailures)
  have g: "snd (isCircuitOpen twoFailures ''item-service'' 2500) ''item-service'' =
             Some \<lparr>failures = 2, isOpen = False, isHalfOpen = False, lastFailure = 2000\<rparr>"
    by (simp add: gate_lookup twoFailures_item)
  have f: "recordFailure twoFailures ''item-service'' 3000 ''item-service'' =
             Some \<lparr>failures = 3, isOpen = True, isHalfOpen = False, lastFailure = 3000\<rparr>"
    by (simp add: fail_lookup twoFailures_item Let_def)
  have z: "resetCircuitBreaker twoFailures ''item-service'' ''item-service'' =
             Some \<lparr>failures = 0, isOpen = False, isHalfOpen = False, lastFailure = 2000\<rparr>"
    by (simp add: reset_lookup twoFailures_item)
  from inv r have all: "\<forall>n b. twoFailures n = Some b \<longrightarrow> breakerInv b" by blast
  with twoFailures_item
  have i0: "breakerInv \<lparr>failures = 2, isOpen = False, isHalfOpen = False, lastFailure = 2000\<rparr>"
    by blast
  from inv all f
  have i1: "breakerInv \<lparr>failures = 3, isOpen = True, isHalfOpen = False, lastFailure = 3000\<rparr>"
    by blast
  from inv all z
  have i2: "breakerInv \<lparr>failures = 0, isOpen = False, isHalfOpen = False, lastFailure = 2000\<rparr>"
    by blast
  from r twoFailures_item i0 f i1 z i2 show ?thesis by simp
qed




text \<open>
  Claim C2. A reset leaves the count at 0 and both flags false whatever the record was;
  and after a forwarded call that the transport did not reject (status below 500), the
  service's record, if there is one, has count 0 and is closed. Where the service has no
  record there is none afterwards either.
\<close>

theorem success_resets_breaker:
  "(\<forall>(cbs::breakers) s b0. cbs s = Some b0 \<longrightarrow>
       resetCircuitBreaker cbs s s = Some (b0\<lparr>failures := 0, isOpen := False, isHalfOpen := False\<rparr>) \<and>
       stateOf (b0\<lparr>failures := 0, isOpen := False, isHalfOpen := False\<rparr>) = Closed) \<and>
   (\<forall>(reg::registry) backend (cbs::breakers) (entry::route) req now later svc st d.
       \<not> fst (isCircuitOpen cbs (service entry) now) \<and>
       discover reg (service entry) = Some svc \<and>
       backend (buildConfig entry req svc) = AxResponse st d \<and> validateStatus st \<longrightarrow>
       (case fst (snd (proxyByEntry reg backend cbs entry req now later)) (service entry) of
          None \<Rightarrow> cbs (service entry) = None
        | Some b \<Rightarrow> failures b = 0 \<and> \<not> isOpen b \<and> \<not> isHalfOpen b \<and> stateOf b = Closed))"
proof (intro conjI allI impI)
  fix cbs :: breakers and s and b0 :: breaker
  assume "cbs s = Some b0"
  then show "resetCircuitBreaker cbs s s = Some (b0\<lparr>failures := 0, isOpen := False, isHalfOpen := False\<rparr>)"
    by (simp add: reset_lookup)
  show "stateOf (b0\<lparr>failures := 0, isOpen := False, isHalfOpen := False\<rparr>) = Closed"
    by (simp add: stateOf_def)
next
  fix reg :: registry and backend and cbs :: breakers and entry :: route and req now later svc st d
  assume a: "\<not> fst (isCircuitOpen cbs (service entry) now) \<and>
       discover reg (service entry) = Some svc \<and>
       backend (buildConfig entry req svc) = AxResponse st d \<and> validateStatus st"
  then have "fst (snd (proxyByEntry reg backend cbs entry req now later)) =
      resetCircuitBreaker (snd (isCircuitOpen cbs (service entry) now)) (service entry)"
    using proxy_success [of cbs entry now reg svc backend req st d later]
    by (simp add: validateStatus_def)
  then show "case fst (snd (proxyByEntry reg backend cbs entry req now later)) (service entry) of
          None \<Rightarrow> cbs (service entry) = None
        | Some b \<Rightarrow> failures b = 0 \<and> \<not> isOpen b \<and> \<not> isHalfOpen b \<and> stateOf b = Closed"
    by (auto simp: reset_lookup gate_lookup stateOf_def split: option.splits)
qed

theorem success_resets_breaker_witness:
  "resetCircuitBreaker threeFailures ''item-service'' ''item-service'' =
     Some \<lparr>failures = 0, isOpen = False, isHalfOpen = False, lastFailure = 3000\<rparr> \<and>
   fst (snd (proxyByEntry itemRegistry notFound404 afterCoolDown itemsRule getItem42 40000 40500)) ''item-service'' =
     Some \<lparr>failures = 0, isOpen = False, isHalfOpen = False, lastFailure = 3000\<rparr>"
proof -
  let ?cbs' = "fst (snd (proxyByEntry itemRegistry notFound404 afterCoolDown itemsRule getItem42 40000 40500))"
  have h: "\<not> fst (isCircuitOpen afterCoolDown (service itemsRule) 40000) \<and>
       discover itemRegistry (service itemsRule) = Some \<lparr>url = ''http://localhost:3003''\<rparr> \<and>
       notFound404 (buildConfig itemsRule getItem42 \<lparr>url = ''http://localhost:3003''\<rparr>) =
         AxResponse 404 (JObj [(''success'', JBool False)]) \<and> validateStatus 404"
    by (simp add: gate_blocked_iff afterCoolDown_item itemsRule_def itemRegistry_def
                  notFound404_def validateStatus_def)
  have r: "resetCircuitBreaker threeFailures ''item-service'' ''item-service'' =
     Some (\<lparr>failures = 3, isOpen = True, isHalfOpen = False, lastFailure = 3000\<rparr>
             \<lparr>failures := 0, isOpen := False, isHalfOpen := False\<rparr>)"
    using success_resets_breaker [THEN conjunct1, rule_format, of threeFailures "''item-service''", OF threeFailures_item] by simp
  have c: "case ?cbs' (service itemsRule) of
          None \<Rightarrow> afterCoolDown (service itemsRule) = None
        | Some b \<Rightarrow> failures b = 0 \<and> \<not> isOpen b \<and> \<not> isHalfOpen b \<and> stateOf b = Closed"
    by (rule success_resets_breaker [THEN conjunct2, rule_format,
          where reg = itemRegistry and backend = notFound404 and cbs = afterCoolDown and entry = itemsRule
            and req = getItem42 and now = 40000 and later = 40500, OF h])
  have v: "?cbs' ''item-service'' =
     Some \<lparr>failures = 0, isOpen = False, isHalfOpen = False, lastFailure = 3000\<rparr>"
    using h proxy_success [of afterCoolDown itemsRule 40000 itemRegistry
             "\<lparr>url = ''http://localhost:3003''\<rparr>" notFound404 getItem42 404
             "JObj [(''success'', JBool False)]" 40500]
    by (simp add: itemsRule_def reset_lookup gate_lookup afterCoolDown_item)
  from r c v show ?thesis by simp
qed

text \<open>
  Claim C3. When the backend answers a forwarded request with a status from 400 to 499,
  the client gets that status and that body unchanged, and the breaker is reset as after
  any success: the service's count is 0 afterwards, so not above what it was, and the
  circuit is closed.
\<close>

theorem client_error_passes_through:
  assumes "reachable cbs"
    and "\<not> fst (isCircuitOpen cbs (service entry) now)"
    and "discover reg (service entry) = Some svc"
    and "backend (buildConfig entry req svc) = AxResponse st d"
    and "400 \<le> st" and "st < 500"
  shows "fst (proxyByEntry reg backend cbs entry req now later) = \<lparr>status = st, payload = d\<rparr> \<and>
         fst (snd (proxyByEntry reg backend cbs entry req now later)) =
           resetCircuitBreaker (snd (isCircuitOpen cbs (service entry) now)) (service entry) \<and>
         (case fst (snd (proxyByEntry reg backend cbs entry req now later)) (service entry) of
            None \<Rightarrow> cbs (service entry) = None
          | Some b \<Rightarrow> failures b = 0 \<and> stateOf b = Closed \<and>
                     (\<exists>b0. cbs (service entry) = Some b0 \<and> failures b \<le> failures b0))"
proof -
  let ?s = "service entry"
  have run: "proxyByEntry reg backend cbs entry req now later =
           (\<lparr>status = st, payload = d\<rparr>,
            resetCircuitBreaker (snd (isCircuitOpen cbs ?s now)) ?s,
            [RegistryDiscover ?s, BackendCall (buildConfig entry req svc)])"
    using assms(2,3,4,6) by (rule proxy_success)
  have nonneg: "0 \<le> failures b0" if "cbs ?s = Some b0" for b0
    using reachable_inv [OF assms(1)] that by (auto simp: breakerInv_def)
  have "case resetCircuitBreaker (snd (isCircuitOpen cbs ?s now)) ?s ?s of
            None \<Rightarrow> cbs ?s = None
          | Some b \<Rightarrow> failures b = 0 \<and> stateOf b = Closed \<and>
                     (\<exists>b0. cbs ?s = Some b0 \<and> failures b \<le> failures b0)"
    using nonneg by (auto simp: reset_lookup gate_lookup stateOf_def split: option.splits)
  with run show ?thesis by simp
qed

theorem client_error_passes_through_witness:
  "fst (proxyByEntry itemRegistry notFound404 twoFailures itemsRule getItem42 5000 5500) =
     \<lparr>status = 404, payload = JObj [(''success'', JBool False)]\<rparr> \<and>
   fst (snd (proxyByEntry itemRegistry notFound404 twoFailures itemsRule getItem42 5000 5500)) ''item-service'' =
     Some \<lparr>failures = 0, isOpen = False, isHalfOpen = False, lastFailure = 2000\<rparr>"
proof -
  have g: "\<not> fst (isCircuitOpen twoFailures (service itemsRule) 5000)"
    by (simp add: gate_blocked_iff twoFailures_item itemsRule_def)
  have d: "discover itemRegistry (service itemsRule) = Some \<lparr>url = ''http://localhost:3003''\<rparr>"
    by (simp add: itemRegistry_def itemsRule_def)
  have b: "notFound404 (buildConfig itemsRule getItem42 \<lparr>url = ''http://localhost:3003''\<rparr>) =
             AxResponse 404 (JObj [(''success'', JBool False)])"
    by (simp add: notFound404_def)
  note t = client_error_passes_through [where cbs = twoFailures and entry = itemsRule and reg = itemRegistry
      and backend = notFound404 and req = getItem42 and now = 5000 and later = 5500,
      OF reachable_twoFailures g d b]
  have "fst (snd (proxyByEntry itemRegistry notFound404 twoFailures itemsRule getItem42 5000 5500)) ''item-service'' =
          resetCircuitBreaker (snd (isCircuitOpen twoFailures ''item-service'' 5000)) ''item-service'' ''item-service''"
    using t by (simp add: itemsRule_def)
  also have "\<dots> = Some \<lparr>failures = 0, isOpen = False, isHalfOpen = False, lastFailure = 2000\<rparr>"
    by (simp add: reset_lookup gate_lookup twoFailures_item)
  finally show ?thesis using t by simp
qed


text \<open>
  Claim C4. From an open record, the step to half-open is taken by the gate check and by
  nothing else. A gate check at most 30 seconds after the last failure answers "open" and
  changes nothing; the first gate check later than that clears \<^verbatim>\<open>isOpen\<close>, sets
  \<^verbatim>\<open>isHalfOpen\<close> and answers "not open". Recording a failure leaves the record open, a
  reset closes it, operations on another service and the health-check timer leave it
  as it is.
\<close>

theorem half_open_only_by_gate_check:
  fixes cbs :: breakers and b :: breaker
  assumes "cbs s = Some b" and "stateOf b = Open"
  shows "(now - lastFailure b \<le> 30000 \<longrightarrow> isCircuitOpen cbs s now = (True, cbs)) \<and>
         (now - lastFailure b > 30000 \<longrightarrow>
            isCircuitOpen cbs s now = (False, cbs(s \<mapsto> b\<lparr>isOpen := False, isHalfOpen := True\<rparr>)) \<and>
            stateOf (b\<lparr>isOpen := False, isHalfOpen := True\<rparr>) = HalfOpen) \<and>
         (\<exists>b'. recordFailure cbs s t s = Some b' \<and> stateOf b' = Open) \<and>
         (\<exists>b'. resetCircuitBreaker cbs s s = Some b' \<and> stateOf b' = Closed) \<and>
         (s' \<noteq> s \<longrightarrow> snd (isCircuitOpen cbs s' t) s = Some b \<and>
                      recordFailure cbs s' t s = Some b \<and>
                      resetCircuitBreaker cbs s' s = Some b) \<and>
         fst (healthCheckTick perform (cbs, reg)) = cbs"
proof -
  from assms(2) have op: "isOpen b" by (simp add: stateOf_def split: if_splits)
  have 1: "now - lastFailure b \<le> 30000 \<longrightarrow> isCircuitOpen cbs s now = (True, cbs)"
    using assms(1) op by (simp add: isCircuitOpen_def)
  have 2: "now - lastFailure b > 30000 \<longrightarrow>
            isCircuitOpen cbs s now = (False, cbs(s \<mapsto> b\<lparr>isOpen := False, isHalfOpen := True\<rparr>)) \<and>
            stateOf (b\<lparr>isOpen := False, isHalfOpen := True\<rparr>) = HalfOpen"
    using assms(1) op by (simp add: isCircuitOpen_def stateOf_def)
  have 3: "\<exists>b'. recordFailure cbs s t s = Some b' \<and> stateOf b' = Open"
    using assms(1) op by (simp add: fail_lookup stateOf_def Let_def)
  have 4: "\<exists>b'. resetCircuitBreaker cbs s s = Some b' \<and> stateOf b' = Closed"
    using assms(1) by (simp add: reset_lookup stateOf_def)
  have 5: "s' \<noteq> s \<longrightarrow> snd (isCircuitOpen cbs s' t) s = Some b \<and>
                      recordFailure cbs s' t s = Some b \<and>
                      resetCircuitBreaker cbs s' s = Some b"
    using assms(1) by (simp add: gate_lookup fail_lookup reset_lookup)
  have 6: "fst (healthCheckTick perform (cbs, reg)) = cbs"
    by (simp add: healthCheckTick_def)
  from 1 2 3 4 5 6 show ?thesis by blast
qed

theorem half_open_only_by_gate_check_witness:
  "stateOf \<lparr>failures = 3, isOpen = True, isHalfOpen = False, lastFailure = 3000\<rparr> = Open \<and>
   isCircuitOpen threeFailures ''item-service'' 33000 = (True, threeFailures) \<and>
   isCircuitOpen threeFailures ''item-service'' 33001 =
     (False, threeFailures(''item-service'' \<mapsto>
        \<lparr>failures = 3, isOpen = False, isHalfOpen = True, lastFailure = 3000\<rparr>)) \<and>
   stateOf \<lparr>failures = 3, isOpen = False, isHalfOpen = True, lastFailure = 3000\<rparr> = HalfOpen \<and>
   recordFailure threeFailures ''user-service'' 33001 ''item-service'' =
     Some \<lparr>failures = 3, isOpen = True, isHalfOpen = False, lastFailure = 3000\<rparr>"
proof -
  let ?b = "\<lparr>failures = 3, isOpen = True, isHalfOpen = False, lastFailure = 3000\<rparr>"
  have st: "stateOf ?b = Open" by (simp add: stateOf_def)
  note a = half_open_only_by_gate_check [where cbs = threeFailures and s = "''item-service''" and now = 33000,
      OF threeFailures_item st]
  note b = half_open_only_by_gate_check [where cbs = threeFailures and s = "''item-service''" and now = 33001
      and t = 33001 and s' = "''user-service''", OF threeFailures_item st]
  from a have 1: "isCircuitOpen threeFailures ''item-service'' 33000 = (True, threeFailures)"
    by simp
  from b have 2: "isCircuitOpen threeFailures ''item-service'' 33001 =
     (False, threeFailures(''item-service'' \<mapsto>
        \<lparr>failures = 3, isOpen = False, isHalfOpen = True, lastFailure = 3000\<rparr>)) \<and>
     stateOf \<lparr>failures = 3, isOpen = False, isHalfOpen = True, lastFailure = 3000\<rparr> = HalfOpen"
    by simp
  from b have 3: "recordFailure threeFailures ''user-service'' 33001 ''item-service'' = Some ?b"
    by simp
  from st 1 2 3 show ?thesis by simp
qed

section \<open>Half-open probing\<close>

text \<open>
  Claim C5 says that a half-open breaker lets a single probing attempt through the gate.
  The gate reads \<^verbatim>\<open>isOpen\<close> only: on the half-open record reached by three failures
  and a gate check after the cool-down, a gate check passes and leaves the record
  half-open, and so does the next one; a request that ends in "service not found"
  leaves it half-open too, and the request after it reaches the backend.
\<close>

theorem half_open_gate_lets_all_through_counterexample:
  "map_option stateOf (afterCoolDown ''item-service'') = Some HalfOpen \<and>
   isCircuitOpen afterCoolDown ''item-service'' 34000 = (False, afterCoolDown) \<and>
   isCircuitOpen (snd (isCircuitOpen afterCoolDown ''item-service'' 34000)) ''item-service'' 34001 =
     (False, afterCoolDown) \<and>
   proxyByEntry userOnlyRegistry refused afterCoolDown itemsRule getItem42 34000 34500 =
     (\<lparr>status = 503, payload = notFoundBody ''item-service'' [''user-service'']\<rparr>, afterCoolDown,
      [RegistryDiscover ''item-service'', RegistryList]) \<and>
   snd (snd (proxyByEntry itemRegistry refused afterCoolDown itemsRule getItem42 34600 34900)) =
     [RegistryDiscover ''item-service'',
      BackendCall (buildConfig itemsRule getItem42 \<lparr>url = ''http://localhost:3003''\<rparr>)]"
proof -
  have g: "isCircuitOpen afterCoolDown ''item-service'' now = (False, afterCoolDown)" for now
    by (simp add: isCircuitOpen_def afterCoolDown_item)
  have 1: "map_option stateOf (afterCoolDown ''item-service'') = Some HalfOpen"
    by (simp add: afterCoolDown_item stateOf_def)
  have 2: "proxyByEntry userOnlyRegistry refused afterCoolDown itemsRule getItem42 34000 34500 =
     (\<lparr>status = 503, payload = notFoundBody ''item-service'' [''user-service'']\<rparr>, afterCoolDown,
      [RegistryDiscover ''item-service'', RegistryList])"
    using proxy_unknown [where cbs = afterCoolDown and entry = itemsRule and now = 34000
        and reg = userOnlyRegistry and backend = refused and req = getItem42 and later = 34500]
    by (simp add: g itemsRule_def userOnlyRegistry_def)
  have 3: "snd (snd (proxyByEntry itemRegistry refused afterCoolDown itemsRule getItem42 34600 34900)) =
     [RegistryDiscover ''item-service'',
      BackendCall (buildConfig itemsRule getItem42 \<lparr>url = ''http://localhost:3003''\<rparr>)]"
    by (simp add: proxyByEntry_def g itemsRule_def itemRegistry_def refused_def Let_def)
  from 1 2 3 show ?thesis by (simp add: g)
qed


text \<open>
  Claim C5, as the code has it. While a reachable record is half-open every gate check
  lets the request through and changes nothing; recording a failure then re-opens the
  circuit, with one more failure counted and \<^verbatim>\<open>lastFailure\<close> set to the time of that
  failure, and so does a proxied request whose backend call fails (refused, timed out or
  a status of 500 or more).
\<close>

theorem half_open_probe_failure_reopens:
  fixes cbs :: breakers and b :: breaker and entry :: route and reg :: registry
  assumes "reachable cbs" and "cbs (service entry) = Some b" and "stateOf b = HalfOpen"
  shows "isCircuitOpen cbs (service entry) now = (False, cbs) \<and>
         recordFailure cbs (service entry) later (service entry) =
           Some (b\<lparr>failures := failures b + 1, lastFailure := later, isOpen := True, isHalfOpen := False\<rparr>) \<and>
         stateOf (b\<lparr>failures := failures b + 1, lastFailure := later, isOpen := True, isHalfOpen := False\<rparr>) = Open \<and>
         (discover reg (service entry) = Some svc \<and>
          ((\<exists>st d. backend (buildConfig entry req svc) = AxResponse st d \<and> 500 \<le> st) \<or>
           (\<exists>c m. backend (buildConfig entry req svc) = AxError c m)) \<longrightarrow>
          fst (snd (proxyByEntry reg backend cbs entry req now later)) (service entry) =
            Some (b\<lparr>failures := failures b + 1, lastFailure := later, isOpen := True, isHalfOpen := False\<rparr>))"
proof -
  let ?s = "service entry"
  from assms(3) have flags: "\<not> isOpen b" "isHalfOpen b"
    by (auto simp: stateOf_def split: if_splits)
  from reachable_inv [OF assms(1)] assms(2) have "tripped b" by blast
  with flags have many: "3 \<le> failures b" by (simp add: tripped_def)
  have g: "isCircuitOpen cbs ?s now = (False, cbs)"
    using assms(2) flags by (simp add: isCircuitOpen_def)
  have f: "recordFailure cbs ?s later ?s =
           Some (b\<lparr>failures := failures b + 1, lastFailure := later, isOpen := True, isHalfOpen := False\<rparr>)"
    using assms(2) many by (simp add: fail_lookup Let_def)
  have st: "stateOf (b\<lparr>failures := failures b + 1, lastFailure := later, isOpen := True, isHalfOpen := False\<rparr>) = Open"
    by (simp add: stateOf_def)
  have p: "fst (snd (proxyByEntry reg backend cbs entry req now later)) ?s =
            Some (b\<lparr>failures := failures b + 1, lastFailure := later, isOpen := True, isHalfOpen := False\<rparr>)"
    if "discover reg ?s = Some svc \<and>
          ((\<exists>st d. backend (buildConfig entry req svc) = AxResponse st d \<and> 500 \<le> st) \<or>
           (\<exists>c m. backend (buildConfig entry req svc) = AxError c m))"
  proof -
    have "fst (snd (proxyByEntry reg backend cbs entry req now later)) =
            recordFailure (snd (isCircuitOpen cbs ?s now)) ?s later"
      using that g by (intro proxy_failure [where svc = svc]) simp_all
    with g f show ?thesis by simp
  qed
  from g f st p show ?thesis by blast
qed

theorem half_open_probe_failure_reopens_witness:
  "reachable afterCoolDown \<and>
   stateOf \<lparr>failures = 3, isOpen = False, isHalfOpen = True, lastFailure = 3000\<rparr> = HalfOpen \<and>
   isCircuitOpen afterCoolDown ''item-service'' 34000 = (False, afterCoolDown) \<and>
   recordFailure afterCoolDown ''item-service'' 34500 ''item-service'' =
     Some \<lparr>failures = 4, isOpen = True, isHalfOpen = False, lastFailure = 34500\<rparr> \<and>
   fst (snd (proxyByEntry itemRegistry refused afterCoolDown itemsRule getItem42 34000 34500)) ''item-service'' =
     Some \<lparr>failures = 4, isOpen = True, isHalfOpen = False, lastFailure = 34500\<rparr>"
proof -
  let ?b = "\<lparr>failures = 3, isOpen = False, isHalfOpen = True, lastFailure = 3000\<rparr>"
  have rec: "afterCoolDown (service itemsRule) = Some ?b"
    by (simp add: afterCoolDown_item itemsRule_def)
  have st: "stateOf ?b = HalfOpen" by (simp add: stateOf_def)
  note t = half_open_probe_failure_reopens [where cbs = afterCoolDown and entry = itemsRule
      and reg = itemRegistry and backend = refused and req = getItem42 and now = 34000
      and later = 34500 and svc = "\<lparr>url = ''http://localhost:3003''\<rparr>",
      OF reachable_afterCoolDown rec st]
  have hyp: "discover itemRegistry (service itemsRule) = Some \<lparr>url = ''http://localhost:3003''\<rparr> \<and>
          ((\<exists>st d. refused (buildConfig itemsRule getItem42 \<lparr>url = ''http://localhost:3003''\<rparr>) = AxResponse st d \<and> 500 \<le> st) \<or>
           (\<exists>c m. refused (buildConfig itemsRule getItem42 \<lparr>url = ''http://localhost:3003''\<rparr>) = AxError c m))"
    by (simp add: itemRegistry_def itemsRule_def refused_def)
  from t hyp
  have "fst (snd (proxyByEntry itemRegistry refused afterCoolDown itemsRule getItem42 34000 34500)) (service itemsRule) =
            Some (?b\<lparr>failures := failures ?b + 1, lastFailure := 34500, isOpen := True, isHalfOpen := False\<rparr>)"
    by blast
  with t reachable_afterCoolDown st show ?thesis by (simp add: itemsRule_def)
qed

section \<open>Properties of the proxy\<close>

lemma gate_keeps_counts:
  "map_option failures (snd (isCircuitOpen cbs s now) n) = map_option failures (cbs n) \<and>
   map_option lastFailure (snd (isCircuitOpen cbs s now) n) = map_option lastFailure (cbs n)"
  by (simp add: gate_lookup split: option.splits)

lemma gate_opens_nothing:
  "snd (isCircuitOpen cbs s now) n = Some b' \<Longrightarrow> isOpen b' \<Longrightarrow> \<exists>b. cbs n = Some b \<and> isOpen b"
  by (auto simp: gate_lookup split: option.splits if_splits)


text \<open>
  Claim C7. When the registry does not know the routed service, the request that gets
  past the gate is answered 503 with a message naming the service and the names the
  registry lists; no failure is recorded (the breaker map is what the gate check left,
  every count and every \<^verbatim>\<open>lastFailure\<close> is as before and no record becomes open), the
  backend is not called, and the body differs from those of a transport failure, an
  internal error and an open circuit.
\<close>

theorem unknown_service_records_no_failure:
  fixes cbs :: breakers and entry :: route and reg :: registry
  assumes "discover reg (service entry) = None"
  shows "(\<not> fst (isCircuitOpen cbs (service entry) now) \<longrightarrow>
            fst (proxyByEntry reg backend cbs entry req now later) =
              \<lparr>status = 503,
               payload = JObj [(''success'', JBool False),
                               (''message'', JStr (''Servi'' @ c_cedilla @ ''o '' @ service entry @ '' n'' @ a_tilde @ ''o encontrado'')),
                               (''availableServices'', JArr (map JStr (map fst (listServices reg))))]\<rparr> \<and>
            snd (snd (proxyByEntry reg backend cbs entry req now later)) =
              [RegistryDiscover (service entry), RegistryList]) \<and>
         fst (snd (proxyByEntry reg backend cbs entry req now later)) =
           snd (isCircuitOpen cbs (service entry) now) \<and>
         map_option failures (fst (snd (proxyByEntry reg backend cbs entry req now later)) n) =
           map_option failures (cbs n) \<and>
         map_option lastFailure (fst (snd (proxyByEntry reg backend cbs entry req now later)) n) =
           map_option lastFailure (cbs n) \<and>
         (fst (snd (proxyByEntry reg backend cbs entry req now later)) n = Some b' \<and> isOpen b' \<longrightarrow>
            (\<exists>b. cbs n = Some b \<and> isOpen b)) \<and>
         BackendCall cfg \<notin> set (snd (snd (proxyByEntry reg backend cbs entry req now later))) \<and>
         notFoundBody (service entry) (map fst (listServices reg)) \<noteq> unavailableBody s' code \<and>
         notFoundBody (service entry) (map fst (listServices reg)) \<noteq> internalErrorBody msg \<and>
         notFoundBody (service entry) (map fst (listServices reg)) \<noteq> circuitOpenBody s'"
proof -
  let ?s = "service entry"
  let ?run = "proxyByEntry reg backend cbs entry req now later"
  have cbs': "fst (snd ?run) = snd (isCircuitOpen cbs ?s now)"
    using assms by (simp add: proxyByEntry_def Let_def case_prod_beta)
  have effs: "BackendCall cfg \<notin> set (snd (snd ?run))"
    using assms by (simp add: proxyByEntry_def Let_def case_prod_beta)
  have pass: "?run = (\<lparr>status = 503, payload = notFoundBody ?s (map fst (listServices reg))\<rparr>,
            snd (isCircuitOpen cbs ?s now), [RegistryDiscover ?s, RegistryList])"
    if "\<not> fst (isCircuitOpen cbs ?s now)"
    using that assms by (rule proxy_unknown)
  have bodies: "notFoundBody ?s (map fst (listServices reg)) \<noteq> unavailableBody s' code"
    "notFoundBody ?s (map fst (listServices reg)) \<noteq> internalErrorBody msg"
    "notFoundBody ?s (map fst (listServices reg)) \<noteq> circuitOpenBody s'"
    by (simp_all add: notFoundBody_def unavailableBody_def internalErrorBody_def circuitOpenBody_def)
  show ?thesis
    using pass bodies effs gate_keeps_counts [of cbs ?s now n] gate_opens_nothing [of cbs ?s now n b']
    unfolding cbs' by (auto simp: notFoundBody_def)
qed

theorem unknown_service_records_no_failure_witness:
  "proxyByEntry userOnlyRegistry refused twoFailures itemsRule getItem42 5000 5500 =
     (\<lparr>status = 503,
       payload = JObj [(''success'', JBool False),
                       (''message'', JStr (''Servi'' @ c_cedilla @ ''o item-service n'' @ a_tilde @ ''o encontrado'')),
                       (''availableServices'', JArr [JStr ''user-service''])]\<rparr>,
      twoFailures, [RegistryDiscover ''item-service'', RegistryList]) \<and>
   map_option failures (fst (snd (proxyByEntry userOnlyRegistry refused twoFailures itemsRule getItem42 5000 5500)) ''item-service'') = Some 2"
proof -
  let ?run = "proxyByEntry userOnlyRegistry refused twoFailures itemsRule getItem42 5000 5500"
  have d: "discover userOnlyRegistry (service itemsRule) = None"
    by (simp add: userOnlyRegistry_def itemsRule_def)
  have g: "isCircuitOpen twoFailures ''item-service'' 5000 = (False, twoFailures)"
    by (simp add: isCircuitOpen_def twoFailures_item)
  note t = unknown_service_records_no_failure [where reg = userOnlyRegistry and entry = itemsRule
      and cbs = twoFailures and now = 5000 and later = 5500 and backend = refused and req = getItem42
      and n = "''item-service''", OF d]
  from t g have 1: "fst ?run = \<lparr>status = 503,
       payload = JObj [(''success'', JBool False),
                       (''message'', JStr (''Servi'' @ c_cedilla @ ''o item-service n'' @ a_tilde @ ''o encontrado'')),
                       (''availableServices'', JArr [JStr ''user-service''])]\<rparr>"
    by (simp add: itemsRule_def userOnlyRegistry_def)
  from t g have 2: "snd (snd ?run) = [RegistryDiscover ''item-service'', RegistryList]"
    by (simp add: itemsRule_def)
  from t g have 3: "fst (snd ?run) = twoFailures"
    by (simp add: itemsRule_def)
  from t have "map_option failures (fst (snd ?run) ''item-service'') =
                 map_option failures (twoFailures ''item-service'')"
    by blast
  then have 4: "map_option failures (fst (snd ?run) ''item-service'') = Some 2"
    by (simp add: twoFailures_item)
  from 1 2 3 4 show ?thesis by (simp add: prod_eq_iff)
qed

lemma replaceFirst_prefix: "replaceFirst pat [] (pat @ r) = r"
proof (cases "pat @ r")
  case Nil
  then show ?thesis by simp
next
  case (Cons c cs)
  then have "take (length pat) (c # cs) = pat" and "drop (length pat) (c # cs) = r"
    by (metis append_eq_conv_conj)+
  then show ?thesis unfolding Cons by simp
qed

lemma rewriteSuffix_literal:
  "original = strip entry @ r \<Longrightarrow>
   rewriteSuffix entry original =
     (if r = ''/'' then [] else if r = [] \<or> startsWith r ''/'' then r else ''/'' @ r)"
  by (auto simp: rewriteSuffix_def replaceFirst_prefix startsWith_def Let_def)

lemma deleteKey_twice:
  "deleteKey ''content-length'' (deleteKey ''host'' hs) =
     filter (\<lambda>kv. fst kv \<noteq> ''host'' \<and> fst kv \<noteq> ''content-length'') hs"
  by (induction hs) (auto simp: deleteKey_def)


text \<open>
  Claim C6 says that the forwarded URL is always the backend's base URL, the forward
  base and the original URL without the strip prefix, query string kept, and that the
  body goes along for mutating methods. Four requests the items rule receives:
  \<^verbatim>\<open>/api/items/\<close> is forwarded to \<^verbatim>\<open>/items\<close>, not \<^verbatim>\<open>/items/\<close>;
  \<^verbatim>\<open>/api/items?limit=5\<close> is forwarded to \<^verbatim>\<open>/items/?limit=5\<close>, not
  \<^verbatim>\<open>/items?limit=5\<close>, and its query is in the URL and in \<^verbatim>\<open>params\<close> at once;
  \<^verbatim>\<open>/API/ITEMS/42\<close> (Express matches the mount path without regard to case) keeps its
  prefix and is forwarded to \<^verbatim>\<open>/items/API/ITEMS/42\<close>; and the body of a DELETE is not
  forwarded.
\<close>

theorem forwarded_url_not_plain_concatenation_counterexample:
  "c_url (buildConfig itemsRule (getItem42\<lparr>originalUrl := ''/api/items/''\<rparr>) \<lparr>url = ''http://localhost:3003''\<rparr>) =
     ''http://localhost:3003/items'' \<and>
   specForwardUrl itemsRule ''http://localhost:3003'' ''/api/items/'' = ''http://localhost:3003/items/'' \<and>
   c_url (buildConfig itemsRule (getItem42\<lparr>originalUrl := ''/api/items/''\<rparr>) \<lparr>url = ''http://localhost:3003''\<rparr>) \<noteq>
     specForwardUrl itemsRule ''http://localhost:3003'' ''/api/items/'' \<and>
   c_url (buildConfig itemsRule (getItem42\<lparr>originalUrl := ''/api/items?limit=5'', query := [(''limit'', JStr ''5'')]\<rparr>)
            \<lparr>url = ''http://localhost:3003''\<rparr>) =
     ''http://localhost:3003/items/?limit=5'' \<and>
   specForwardUrl itemsRule ''http://localhost:3003'' ''/api/items?limit=5'' = ''http://localhost:3003/items?limit=5'' \<and>
   c_params (buildConfig itemsRule (getItem42\<lparr>originalUrl := ''/api/items?limit=5'', query := [(''limit'', JStr ''5'')]\<rparr>)
            \<lparr>url = ''http://localhost:3003''\<rparr>) =
     Some [(''limit'', JStr ''5'')] \<and>
   c_url (buildConfig itemsRule (getItem42\<lparr>originalUrl := ''/API/ITEMS/42''\<rparr>) \<lparr>url = ''http://localhost:3003''\<rparr>) =
     ''http://localhost:3003/items/API/ITEMS/42'' \<and>
   specForwardUrl itemsRule ''http://localhost:3003'' ''/API/ITEMS/42'' = ''http://localhost:3003/items/42'' \<and>
   c_data (buildConfig itemsRule
             (getItem42\<lparr>httpMethod := ''DELETE'', body := JObj [(''reason'', JStr ''duplicate'')]\<rparr>)
             \<lparr>url = ''http://localhost:3003''\<rparr>) = None"
  by (simp add: buildConfig_def rewriteSuffix_def itemsRule_def getItem42_def specForwardUrl_def
                startsWith_def Let_def)


text \<open>
  Claim C6, as the code has it by design. For a request without a query string whose
  original URL is the strip prefix as the rule writes it, followed by a rest \<open>r\<close>, the
  forwarded URL is the backend's base URL, the forward base and \<open>r\<close>, except that a rest
  of just a slash is dropped (and a rest that does not start with a slash gets one); so
  \<^verbatim>\<open>/api/items/42\<close> goes to \<^verbatim>\<open>/items/42\<close> of the backend. No \<^verbatim>\<open>params\<close> are set, the
  method is the original one, the headers are the original ones without \<^verbatim>\<open>host\<close> and
  \<^verbatim>\<open>content-length\<close>, the body goes along for POST, PUT and PATCH and for no other
  method, and this is the call the proxy makes once past the gate and the registry.
  What happens to a query string and to a prefix in another case is left open here.
\<close>

theorem forwarded_request_rewrite:
  fixes entry :: route and req :: request and svc :: serviceRecord and reg :: registry and cbs :: breakers
  assumes "originalUrl req = strip entry @ r" and "CHR ''?'' \<notin> set r" and "query req = []"
  shows "c_url (buildConfig entry req svc) =
           url svc @ forwardBase entry @
             (if r = ''/'' then [] else if r = [] \<or> startsWith r ''/'' then r else ''/'' @ r) \<and>
         (r \<noteq> ''/'' \<and> (r = [] \<or> startsWith r ''/'') \<longrightarrow>
            c_url (buildConfig entry req svc) = specForwardUrl entry (url svc) (originalUrl req)) \<and>
         c_url (buildConfig itemsRule (req\<lparr>originalUrl := ''/api/items/42''\<rparr>) svc) = url svc @ ''/items/42'' \<and>
         c_params (buildConfig entry req svc) = None \<and>
         c_method (buildConfig entry req svc) = httpMethod req \<and>
         c_headers (buildConfig entry req svc) =
           Some (filter (\<lambda>kv. fst kv \<noteq> ''host'' \<and> fst kv \<noteq> ''content-length'') (headers req)) \<and>
         c_data (buildConfig entry req svc) =
           (if httpMethod req = ''POST'' \<or> httpMethod req = ''PUT'' \<or> httpMethod req = ''PATCH''
            then Some (body req) else None) \<and>
         (\<not> fst (isCircuitOpen cbs (service entry) now) \<and> discover reg (service entry) = Some svc \<longrightarrow>
            snd (snd (proxyByEntry reg backend cbs entry req now later)) =
              [RegistryDiscover (service entry), BackendCall (buildConfig entry req svc)])"
proof -
  have u: "c_url (buildConfig entry req svc) =
           url svc @ forwardBase entry @
             (if r = ''/'' then [] else if r = [] \<or> startsWith r ''/'' then r else ''/'' @ r)"
    using rewriteSuffix_literal [OF assms(1)] by (simp add: buildConfig_def Let_def)
  have sp: "c_url (buildConfig entry req svc) = specForwardUrl entry (url svc) (originalUrl req)"
    if "r \<noteq> ''/'' \<and> (r = [] \<or> startsWith r ''/'')"
    using that u by (auto simp: specForwardUrl_def assms(1))
  have ex: "c_url (buildConfig itemsRule (req\<lparr>originalUrl := ''/api/items/42''\<rparr>) svc) = url svc @ ''/items/42''"
    by (simp add: buildConfig_def rewriteSuffix_def itemsRule_def startsWith_def Let_def)
  have p: "c_params (buildConfig entry req svc) = None"
    using assms(3) by (simp add: buildConfig_def Let_def)
  have m: "c_method (buildConfig entry req svc) = httpMethod req"
    by (simp add: buildConfig_def Let_def)
  have h: "c_headers (buildConfig entry req svc) =
           Some (filter (\<lambda>kv. fst kv \<noteq> ''host'' \<and> fst kv \<noteq> ''content-length'') (headers req))"
    by (simp add: buildConfig_def Let_def deleteKey_twice)
  have d: "c_data (buildConfig entry req svc) =
           (if httpMethod req = ''POST'' \<or> httpMethod req = ''PUT'' \<or> httpMethod req = ''PATCH''
            then Some (body req) else None)"
    by (simp add: buildConfig_def Let_def)
  have e: "snd (snd (proxyByEntry reg backend cbs entry req now later)) =
              [RegistryDiscover (service entry), BackendCall (buildConfig entry req svc)]"
    if "\<not> fst (isCircuitOpen cbs (service entry) now) \<and> discover reg (service entry) = Some svc"
    using that
    by (auto simp: proxyByEntry_def Let_def case_prod_beta split: axios_outcome.splits)
  from u sp ex p m h d e show ?thesis by blast
qed

theorem forwarded_request_rewrite_witness:
  "c_url (buildConfig itemsRule getItem42 \<lparr>url = ''http://localhost:3003''\<rparr>) = ''http://localhost:3003/items/42'' \<and>
   specForwardUrl itemsRule ''http://localhost:3003'' ''/api/items/42'' = ''http://localhost:3003/items/42'' \<and>
   c_headers (buildConfig itemsRule getItem42 \<lparr>url = ''http://localhost:3003''\<rparr>) =
     Some [(''accept'', ''application/json'')] \<and>
   snd (snd (proxyByEntry itemRegistry notFound404 twoFailures itemsRule getItem42 5000 5500)) =
     [RegistryDiscover ''item-service'', BackendCall (buildConfig itemsRule getItem42 \<lparr>url = ''http://localhost:3003''\<rparr>)]"
proof -
  let ?svc = "\<lparr>url = ''http://localhost:3003''\<rparr>"
  have o: "originalUrl getItem42 = strip itemsRule @ ''/42''"
    by (simp add: getItem42_def itemsRule_def)
  have nq: "CHR ''?'' \<notin> set ''/42''" by simp
  have q: "query getItem42 = []" by (simp add: getItem42_def)
  note t = forwarded_request_rewrite [where req = getItem42 and entry = itemsRule and r = "''/42''"
      and svc = ?svc and reg = itemRegistry and cbs = twoFailures and now = 5000 and later = 5500
      and backend = notFound404, OF o nq q]
  have g: "\<not> fst (isCircuitOpen twoFailures (service itemsRule) 5000) \<and>
           discover itemRegistry (service itemsRule) = Some ?svc"
    by (simp add: gate_blocked_iff twoFailures_item itemsRule_def itemRegistry_def)
  have 1: "c_url (buildConfig itemsRule getItem42 ?svc) = ''http://localhost:3003/items/42''"
    using t [THEN conjunct1] by (simp add: itemsRule_def startsWith_def)
  have "c_url (buildConfig itemsRule getItem42 ?svc) =
                 specForwardUrl itemsRule (url ?svc) (originalUrl getItem42)"
    using t [THEN conjunct2, THEN conjunct1] by (simp add: startsWith_def)
  with 1 have 2: "specForwardUrl itemsRule ''http://localhost:3003'' ''/api/items/42'' = ''http://localhost:3003/items/42''"
    by (simp add: getItem42_def)
  have "c_headers (buildConfig itemsRule getItem42 ?svc) =
           Some (filter (\<lambda>kv. fst kv \<noteq> ''host'' \<and> fst kv \<noteq> ''content-length'') (headers getItem42))"
    using t by blast
  then have 3: "c_headers (buildConfig itemsRule getItem42 ?svc) = Some [(''accept'', ''application/json'')]"
    by (simp add: getItem42_def)
  from t g have 4: "snd (snd (proxyByEntry itemRegistry notFound404 twoFailures itemsRule getItem42 5000 5500)) =
     [RegistryDiscover (service itemsRule), BackendCall (buildConfig itemsRule getItem42 ?svc)]"
    by blast
  from 1 2 3 4 show ?thesis by (simp add: itemsRule_def)
qed


section \<open>Properties of the aggregated endpoints\<close>

text \<open>
  Claim C9. A global search whose query has no \<^verbatim>\<open>q\<close>, or an empty one, is answered 400
  at once: no registry lookup and no backend call is made, neither the catalog search nor
  the listing of the caller's lists.
\<close>

theorem search_without_query_is_rejected:
  fixes req :: request
  assumes "map_of (query req) ''q'' = None \<or> map_of (query req) ''q'' = Some (JStr [])"
  shows "globalSearch rt reg backend req =
           (\<lparr>status = 400,
             payload = JObj [(''success'', JBool False),
                             (''message'', JStr (''Par'' @ a_circ @ ''metro '' @ [CHR 0x22] @ ''q'' @ [CHR 0x22] @ '' '' @ e_acute
                                                 @ '' obrigat'' @ o_acute @ ''rio''))]\<rparr>,
            [])"
  using assms by (auto simp: globalSearch_def missingQueryBody_def)

theorem search_without_query_is_rejected_witness:
  "globalSearch plainRuntime itemRegistry catalogBackend searchNoQuery =
     (\<lparr>status = 400, payload = missingQueryBody\<rparr>, []) \<and>
   globalSearch plainRuntime itemRegistry catalogBackend searchEmptyQuery =
     (\<lparr>status = 400, payload = missingQueryBody\<rparr>, [])"
proof -
  have a: "map_of (query searchNoQuery) ''q'' = None \<or> map_of (query searchNoQuery) ''q'' = Some (JStr [])"
    by (simp add: searchNoQuery_def)
  have b: "map_of (query searchEmptyQuery) ''q'' = None \<or> map_of (query searchEmptyQuery) ''q'' = Some (JStr [])"
    by (simp add: searchEmptyQuery_def)
  show ?thesis
    using search_without_query_is_rejected [where req = searchNoQuery and rt = plainRuntime
            and reg = itemRegistry and backend = catalogBackend, OF a]
          search_without_query_is_rejected [where req = searchEmptyQuery and rt = plainRuntime
            and reg = itemRegistry and backend = catalogBackend, OF b]
    by (simp add: missingQueryBody_def)
qed


text \<open>
  What a rejected branch contributes, when the dashboard answers 200, and that it does
  so when the call for the caller's lists is rejected.
\<close>

lemma rejected_branch:
  "branchData Rejected = Some (JArr [])" "listTotals rt (JArr []) = Some (0, 0, 0, 0)"
  "sliceTo 5 (JArr []) = Some (JArr [])" "sampleItemsOf (JArr []) = Some (JArr [])"
  by (simp_all add: branchData_def listTotals_def sliceTo_def sampleItemsOf_def)

lemma dashboard_ok:
  assumes "present (authorizationOf req)"
    and "branchData (fst (listsCall reg backend (authorizationOf req))) = Some userLists"
    and "branchData (fst (itemsCall reg backend)) = Some items"
    and "branchData (fst (categoriesCall reg backend)) = Some categories"
    and "listTotals rt userLists = Some (totalLists, totalItems, purchasedItems, estimatedTotal)"
    and "sliceTo 5 userLists = Some sample"
    and "sampleItemsOf items = Some sampleItems"
  shows "fst (getDashboard rt reg backend req timestamp) =
           \<lparr>status = 200,
            payload =
              JObj [(''success'', JBool True),
                    (''data'',
                     JObj [(''timestamp'', JStr timestamp),
                           (''services'', JObj (listServices reg)),
                           (''lists'',
                            JObj [(''totalLists'', JNum totalLists),
                                  (''totalItems'', JNum totalItems),
                                  (''purchasedItems'', JNum purchasedItems),
                                  (''estimatedTotal'', JNum (toFixed2 rt estimatedTotal)),
                                  (''sample'', sample)]),
                           (''catalog'',
                            JObj [(''sampleItems'', sampleItems),
                                  (''categories'', categories)])])]\<rparr>"
  using assms by (simp add: getDashboard_def Let_def case_prod_beta)

lemma dashboard_rejected_lists:
  assumes "present (authorizationOf req)"
    and "fst (listsCall reg backend (authorizationOf req)) = Rejected"
    and "branchData (fst (itemsCall reg backend)) = Some items"
    and "sampleItemsOf items = Some sampleItems"
    and "branchData (fst (categoriesCall reg backend)) = Some categories"
  shows "fst (getDashboard rt reg backend req timestamp) =
           \<lparr>status = 200,
            payload =
              JObj [(''success'', JBool True),
                    (''data'',
                     JObj [(''timestamp'', JStr timestamp),
                           (''services'', JObj (listServices reg)),
                           (''lists'',
                            JObj [(''totalLists'', JNum 0),
                                  (''totalItems'', JNum 0),
                                  (''purchasedItems'', JNum 0),
                                  (''estimatedTotal'', JNum (toFixed2 rt 0)),
                                  (''sample'', JArr [])]),
                           (''catalog'',
                            JObj [(''sampleItems'', sampleItems),
                                  (''categories'', categories)])])]\<rparr>"
proof (rule dashboard_ok [where userLists = "JArr []" and items = items])
  show "present (authorizationOf req)" by (rule assms)
  show "branchData (fst (listsCall reg backend (authorizationOf req))) = Some (JArr [])"
    using assms(2) by (simp add: rejected_branch)
  show "branchData (fst (itemsCall reg backend)) = Some items" by (rule assms)
  show "branchData (fst (categoriesCall reg backend)) = Some categories" by (rule assms)
  show "listTotals rt (JArr []) = Some (0, 0, 0, 0)" by (rule rejected_branch)
  show "sliceTo 5 (JArr []) = Some (JArr [])" by (rule rejected_branch)
  show "sampleItemsOf items = Some sampleItems" by (rule assms)
qed

lemma unauthorized_calls:
  "fst (listsCall bothRegistry listsUnauthorizedBackend (authorizationOf dashboardRequest)) =
     Fulfilled tokenInvalidEnvelope"
  "fst (itemsCall bothRegistry listsUnauthorizedBackend) = Fulfilled itemsEnvelope"
  "fst (categoriesCall bothRegistry listsUnauthorizedBackend) = Fulfilled categoriesEnvelope"
  by (simp_all add: listsCall_def itemsCall_def categoriesCall_def callService_def bothRegistry_def
        listsUnauthorizedBackend_def catalogBackend_def validateStatus_def Let_def
        authorizationOf_def dashboardRequest_def)


text \<open>
  Claim C8 asks for a 200 answer with empty list totals and the catalog filled in
  whenever the call for the caller's lists fails and the two catalog calls succeed, the
  endpoint never failing because of one sub-call alone. With a token the list service
  turns down, its 401 is a fulfilled call (\<^verbatim>\<open>validateStatus\<close> accepts every status
  below 500), \<^verbatim>\<open>lists\<close> is the error envelope, \<^verbatim>\<open>lists.slice(0, 5)\<close> throws, and the
  answer is 500 although both catalog calls are fulfilled. The catalog sample has the
  guard (\<^verbatim>\<open>items.slice ? ... : items\<close>) that the list sample lacks: the same envelope
  passes there.
\<close>

theorem dashboard_fails_when_lists_answer_401:
  "present (authorizationOf dashboardRequest) \<and>
   fst (listsCall bothRegistry listsUnauthorizedBackend (authorizationOf dashboardRequest)) =
     Fulfilled tokenInvalidEnvelope \<and>
   fst (itemsCall bothRegistry listsUnauthorizedBackend) = Fulfilled itemsEnvelope \<and>
   fst (categoriesCall bothRegistry listsUnauthorizedBackend) = Fulfilled categoriesEnvelope \<and>
   branchData (Fulfilled tokenInvalidEnvelope) = Some tokenInvalidEnvelope \<and>
   sliceTo 5 tokenInvalidEnvelope = None \<and>
   sampleItemsOf tokenInvalidEnvelope = Some tokenInvalidEnvelope \<and>
   fst (getDashboard plainRuntime bothRegistry listsUnauthorizedBackend dashboardRequest
          ''2025-10-01T12:00:00.000Z'') =
     \<lparr>status = 500,
      payload = JObj [(''success'', JBool False), (''message'', JStr ''Erro ao agregar dashboard'')]\<rparr>"
proof -
  have a: "present (authorizationOf dashboardRequest)"
    by (simp add: present_def authorizationOf_def dashboardRequest_def)
  have b: "branchData (Fulfilled tokenInvalidEnvelope) = Some tokenInvalidEnvelope"
    by (simp add: branchData_def tokenInvalidEnvelope_def orElse_def)
  have s: "sliceTo 5 tokenInvalidEnvelope = None"
    by (simp add: sliceTo_def tokenInvalidEnvelope_def)
  have g: "sampleItemsOf tokenInvalidEnvelope = Some tokenInvalidEnvelope"
    by (simp add: sampleItemsOf_def tokenInvalidEnvelope_def optProp_def)
  have t: "listTotals plainRuntime tokenInvalidEnvelope = Some (0, 0, 0, 0)"
    by (simp add: listTotals_def tokenInvalidEnvelope_def)
  have i: "branchData (Fulfilled itemsEnvelope) \<noteq> None" "branchData (Fulfilled categoriesEnvelope) \<noteq> None"
    by (simp_all add: branchData_def itemsEnvelope_def categoriesEnvelope_def)
  have r: "fst (getDashboard plainRuntime bothRegistry listsUnauthorizedBackend dashboardRequest
          ''2025-10-01T12:00:00.000Z'') = \<lparr>status = 500, payload = dashboardErrorBody\<rparr>"
    using a b s t i
    by (auto simp: getDashboard_def Let_def case_prod_beta unauthorized_calls split: option.splits)
  from a b s g r show ?thesis
    by (simp add: unauthorized_calls dashboardErrorBody_def)
qed

end
